theory Spec2Isabelle
  imports Main "HOL-Library.AList"
begin

section \<open>Python values, dictionaries and exceptions\<close>

text \<open>
  The values that test parameters hold: \<open>None\<close>, strings, integers, lists and tuples.
  On these values Python's \<open>==\<close> is structural equality, which is HOL's \<open>=\<close>.
  Floats, booleans and dict-valued parameters are outside the model (there \<open>==\<close>
  is coarser than structural equality).
\<close>

datatype pyval =
    PNone
  | PStr string
  | PInt int
  | PList "pyval list"
  | PTuple "pyval list"

text \<open>
  A \<open>dict\<close> with string keys is an association list in insertion order, its keys
  distinct. \<open>d[k] = v\<close> is \<open>AList.update k v d\<close>: the value is replaced in place
  when the key is there and appended otherwise, as Python orders a dict.
\<close>

type_synonym pydict = "(string \<times> pyval) list"

datatype exn =
    AssertionError
  | AttributeError
  | KeyError string
  | CaseError string

definition dict_get :: "pydict \<Rightarrow> string \<Rightarrow> pyval" where
  \<comment> \<open>\<open>d.get(k)\<close>: \<open>None\<close> when the key is missing\<close>
  "dict_get d k = (case map_of d k of None \<Rightarrow> PNone | Some v \<Rightarrow> v)"

definition dict_getitem :: "pydict \<Rightarrow> string \<Rightarrow> exn + pyval" where
  \<comment> \<open>\<open>d[k]\<close>: raises \<open>KeyError(k)\<close> when the key is missing\<close>
  "dict_getitem d k = (case map_of d k of None \<Rightarrow> Inl (KeyError k) | Some v \<Rightarrow> Inr v)"

definition dict_eq :: "pydict \<Rightarrow> pydict \<Rightarrow> bool" where
  \<comment> \<open>\<open>a == b\<close> on dicts: as many items, and every item of \<open>a\<close> is in \<open>b\<close>;
      the order of insertion plays no role\<close>
  "dict_eq a b \<longleftrightarrow> length a = length b \<and> list_all (\<lambda>(k, v). map_of b k = Some v) a"

subsection \<open>str() and repr()\<close>

text \<open>
  Python's \<open>str\<close> and \<open>repr\<close> on these values. A \<open>char\<close> is the code point of
  a character below 256; \<open>repr\<close> of a string chooses the quote, escapes the quote, the
  backslash, tab, newline and carriage return, and writes the other characters that are
  not printable as \<open>\xNN\<close>.
\<close>

definition digit :: "nat \<Rightarrow> char" where
  "digit n = ''0123456789abcdef'' ! n"

function str_of_nat :: "nat \<Rightarrow> string" where
  "str_of_nat n = (if n < 10 then [digit n] else str_of_nat (n div 10) @ [digit (n mod 10)])"
  by pat_completeness auto
termination
  by (relation "measure id") auto

declare str_of_nat.simps [simp del]

definition str_of_int :: "int \<Rightarrow> string" where
  "str_of_int i = (if i < 0 then ''-'' @ str_of_nat (nat (- i)) else str_of_nat (nat i))"

fun join :: "string \<Rightarrow> string list \<Rightarrow> string" where
  "join sep [] = []"
| "join sep [x] = x"
| "join sep (x # y # ys) = x @ sep @ join sep (y # ys)"

definition repr_char :: "char \<Rightarrow> char \<Rightarrow> string" where
  "repr_char quote c =
     (let n = (of_char c :: nat) in
      if c = quote \<or> c = CHR 0x5C then [CHR 0x5C, c]
      else if c = CHR 0x09 then [CHR 0x5C, CHR ''t'']
      else if c = CHR 0x0A then [CHR 0x5C, CHR ''n'']
      else if c = CHR 0x0D then [CHR 0x5C, CHR ''r'']
      else if n < 32 \<or> n = 127 \<or> (128 \<le> n \<and> n \<le> 160) \<or> n = 173
        then [CHR 0x5C, CHR ''x'', digit (n div 16), digit (n mod 16)]
      else [c])"

definition repr_str :: "string \<Rightarrow> string" where
  "repr_str s =
     (let quote = (if CHR 0x27 \<in> set s \<and> CHR 0x22 \<notin> set s then CHR 0x22 else CHR 0x27)
      in [quote] @ concat (map (repr_char quote) s) @ [quote])"

fun py_repr :: "pyval \<Rightarrow> string" where
  "py_repr PNone = ''None''"
| "py_repr (PStr s) = repr_str s"
| "py_repr (PInt i) = str_of_int i"
| "py_repr (PList xs) = ''['' @ join '', '' (map py_repr xs) @ '']''"
| "py_repr (PTuple xs) =
     (case xs of
        [x] \<Rightarrow> ''('' @ py_repr x @ '',)''
      | _ \<Rightarrow> ''('' @ join '', '' (map py_repr xs) @ '')'')"

definition py_str :: "pyval \<Rightarrow> string" where
  "py_str v = (case v of PStr s \<Rightarrow> s | _ \<Rightarrow> py_repr v)"

section \<open>The test case class and the creation parameters\<close>

text \<open>
  The test case class is an external collaborator. The helper uses two things of it:
  the class method \<open>get_list_of_test_stages()\<close> and the constructor, called with the
  factories of the action parameters (an opaque value of type \<open>'f\<close>). The constructor
  may raise: \<open>init_raises n f\<close> is the exception raised by the call that follows
  \<open>n\<close> earlier constructor calls, \<open>None\<close> when that call returns an instance.
  The instance built by that call is \<open>TestCase n f\<close>, so two instances built by
  different calls are different objects.
\<close>

record 'f test_case_class_model =
  get_list_of_test_stages :: "string list"
  init_raises :: "nat \<Rightarrow> 'f \<Rightarrow> exn option"

datatype 'f test_case = TestCase nat 'f

text \<open>
  An element of the list of test bunches: a dict, or some other value (which the
  assertion of \<open>get_list_of_tests\<close> rejects).
\<close>

datatype bunch = Dict pydict | NotADict pyval

fun is_dict :: "bunch \<Rightarrow> bool" where
  "is_dict (Dict d) = True"
| "is_dict (NotADict v) = False"

text \<open>What an \<open>OTETestCreationParametersInterface\<close> object returns from its five methods.\<close>

record 'f creation_parameters =
  cp_test_bunches :: "bunch list"
  cp_test_case_class :: "'f test_case_class_model"
  cp_short_test_parameters_names_for_generating_id :: "(string \<times> string) list"
  cp_test_parameters_defining_test_case_behavior :: "string list"
  cp_default_test_parameters :: pydict

section \<open>The cache\<close>

record 'f Cache =
  cache_parameters :: pydict
  cached_value :: "'f test_case option"

definition Cache_init :: "'f Cache" where
  "Cache_init = \<lparr>cache_parameters = [], cached_value = None\<rparr>"

definition Cache_get :: "'f Cache \<Rightarrow> 'f test_case option" where
  "Cache_get c = cached_value c"

definition Cache_set :: "pydict \<Rightarrow> 'f test_case \<Rightarrow> 'f Cache \<Rightarrow> 'f Cache" where
  "Cache_set params v c = c\<lparr>cache_parameters := params, cached_value := Some v\<rparr>"

definition has_same_params :: "'f Cache \<Rightarrow> pydict \<Rightarrow> bool" where
  "has_same_params c params = dict_eq (cache_parameters c) params"

section \<open>The helper\<close>

text \<open>
  The fields of an \<open>OTETestHelper\<close>. The field \<open>constructor_calls\<close> is not a field of
  the source: it counts the calls of the test case class constructor made so far, so
  that the theorems can say when an instance is built.
\<close>

record 'f OTETestHelper =
  test_case_class :: "'f test_case_class_model"
  test_bunches :: "bunch list"
  short_test_parameters_names_for_generating_id :: "(string \<times> string) list"
  test_parameters_defining_test_case_behavior :: "string list"
  default_test_parameters :: pydict
  cache :: "'f Cache"
  constructor_calls :: nat

text \<open>
  \<open>__init__\<close>. The \<open>isinstance\<close> assertions on the creation parameters hold by the
  types of the record; the four assertions on the keys of the id-naming dict remain.
\<close>

definition OTETestHelper_init :: "'f creation_parameters \<Rightarrow> exn + 'f OTETestHelper" where
  "OTETestHelper_init cp =
     (let names = cp_short_test_parameters_names_for_generating_id cp in
      if ''test_stage'' \<notin> fst ` set names then Inl AssertionError
      else if ''model_name'' \<notin> fst ` set names then Inl AssertionError
      else if ''dataset_name'' \<notin> fst ` set names then Inl AssertionError
      else if ''usecase'' \<notin> fst ` set names then Inl AssertionError
      else Inr \<lparr>test_case_class = cp_test_case_class cp,
                test_bunches = cp_test_bunches cp,
                short_test_parameters_names_for_generating_id = names,
                test_parameters_defining_test_case_behavior =
                  cp_test_parameters_defining_test_case_behavior cp,
                default_test_parameters = cp_default_test_parameters cp,
                cache = Cache_init,
                constructor_calls = 0\<rparr>)"

subsection \<open>get_list_of_tests\<close>

text \<open>
  \<open>_fill_test_parameters_default_values\<close>: the loop over the items of the defaults.
  The module that defines \<open>DEFAULT_FIELD_VALUE_FOR_USING_IN_TEST\<close> is not among the
  sources, so the value it returns is a parameter, \<open>unset\<close>, of the functions below.
\<close>

fun fill_defaults_loop :: "pyval \<Rightarrow> pydict \<Rightarrow> pydict \<Rightarrow> pydict" where
  "fill_defaults_loop unset [] test_parameters = test_parameters"
| "fill_defaults_loop unset ((key, default_val) # rest) test_parameters =
     (let val = dict_get test_parameters key in
      if val = PNone \<or> val = unset
      then fill_defaults_loop unset rest (AList.update key default_val test_parameters)
      else fill_defaults_loop unset rest test_parameters)"

definition fill_test_parameters_default_values ::
  "pyval \<Rightarrow> 'f OTETestHelper \<Rightarrow> pydict \<Rightarrow> pydict" where
  "fill_test_parameters_default_values unset self test_parameters =
     fill_defaults_loop unset (default_test_parameters self) test_parameters"

text \<open>
  \<open>_generate_test_id\<close>: \<open>join\<close> consumes the generator of the parts, so the first
  key of the id-naming dict that is missing from the test parameters raises \<open>KeyError\<close>.
\<close>

fun id_parts :: "(string \<times> string) list \<Rightarrow> pydict \<Rightarrow> exn + string list" where
  "id_parts [] test_parameters = Inr []"
| "id_parts ((par_name, short_par_name) # rest) test_parameters =
     (case dict_getitem test_parameters par_name of
        Inl e \<Rightarrow> Inl e
      | Inr v \<Rightarrow>
          (case id_parts rest test_parameters of
             Inl e \<Rightarrow> Inl e
           | Inr parts \<Rightarrow> Inr ((short_par_name @ ''-'' @ py_str v) # parts)))"

definition generate_test_id :: "'f OTETestHelper \<Rightarrow> pydict \<Rightarrow> exn + string" where
  "generate_test_id self test_parameters =
     (case id_parts (short_test_parameters_names_for_generating_id self) test_parameters of
        Inl e \<Rightarrow> Inl e
      | Inr parts \<Rightarrow> Inr (join '','' parts))"

text \<open>
  The body of the innermost loop up to the filling of the defaults: the test parameters
  of one test, a copy of the bunch with the stage, the model and the dataset written.
\<close>

definition test_parameters_of ::
  "pyval \<Rightarrow> 'f OTETestHelper \<Rightarrow> pydict \<Rightarrow> pyval \<Rightarrow> pyval \<Rightarrow> string \<Rightarrow> pydict" where
  "test_parameters_of unset self el m d test_stage =
     fill_test_parameters_default_values unset self
       (AList.update ''dataset_name'' d
         (AList.update ''model_name'' m
           (AList.update ''test_stage'' (PStr test_stage) el)))"

text \<open>
  The three nested loops. Each carries the lists \<open>argvalues\<close> and \<open>ids\<close>; an
  exception leaves the loops at once. The one-element tuples of \<open>argvalues\<close> are
  written as their element.
\<close>

fun stage_loop ::
  "pyval \<Rightarrow> 'f OTETestHelper \<Rightarrow> pydict \<Rightarrow> pyval \<Rightarrow> pyval \<Rightarrow> string list \<Rightarrow>
   pydict list \<times> string list \<Rightarrow> exn + pydict list \<times> string list" where
  "stage_loop unset self el m d [] acc = Inr acc"
| "stage_loop unset self el m d (test_stage # rest) acc =
     (let test_parameters = test_parameters_of unset self el m d test_stage in
      case generate_test_id self test_parameters of
        Inl e \<Rightarrow> Inl e
      | Inr i \<Rightarrow>
          stage_loop unset self el m d rest (fst acc @ [test_parameters], snd acc @ [i]))"

fun pair_loop ::
  "pyval \<Rightarrow> 'f OTETestHelper \<Rightarrow> pydict \<Rightarrow> (pyval \<times> pyval) list \<Rightarrow>
   pydict list \<times> string list \<Rightarrow> exn + pydict list \<times> string list" where
  "pair_loop unset self el [] acc = Inr acc"
| "pair_loop unset self el ((m, d) # rest) acc =
     (case stage_loop unset self el m d
             (get_list_of_test_stages (test_case_class self)) acc of
        Inl e \<Rightarrow> Inl e
      | Inr acc' \<Rightarrow> pair_loop unset self el rest acc')"

definition as_names :: "pyval \<Rightarrow> pyval list" where
  \<comment> \<open>a list or a tuple as it is, any other value as a list of one element\<close>
  "as_names v = (case v of PList xs \<Rightarrow> xs | PTuple xs \<Rightarrow> xs | _ \<Rightarrow> [v])"

definition model_dataset_pairs :: "pydict \<Rightarrow> (pyval \<times> pyval) list" where
  \<comment> \<open>\<open>itertools.product(model_names, dataset_names)\<close>\<close>
  "model_dataset_pairs el =
     List.product (as_names (dict_get el ''model_name''))
                  (as_names (dict_get el ''dataset_name''))"

fun bunch_loop ::
  "pyval \<Rightarrow> 'f OTETestHelper \<Rightarrow> pyval \<Rightarrow> bunch list \<Rightarrow>
   pydict list \<times> string list \<Rightarrow> exn + pydict list \<times> string list" where
  "bunch_loop unset self usecase [] acc = Inr acc"
| "bunch_loop unset self usecase (NotADict v # rest) acc = Inl AttributeError"
| "bunch_loop unset self usecase (Dict el # rest) acc =
     (let el_usecase = dict_get el ''usecase'' in
      if usecase \<noteq> PNone \<and> el_usecase \<noteq> usecase
      then bunch_loop unset self usecase rest acc
      else
        (case pair_loop unset self el (model_dataset_pairs el) acc of
           Inl e \<Rightarrow> Inl e
         | Inr acc' \<Rightarrow> bunch_loop unset self usecase rest acc'))"

text \<open>
  \<open>get_list_of_tests\<close>; the argument \<open>usecase\<close> is \<open>PNone\<close> when no filter is
  given. The result is what the call returns or raises, and the helper after the call.
\<close>

definition get_list_of_tests ::
  "pyval \<Rightarrow> 'f OTETestHelper \<Rightarrow> pyval \<Rightarrow>
   (exn + string list \<times> pydict list \<times> string list) \<times> 'f OTETestHelper" where
  "get_list_of_tests unset self usecase =
     (if \<not> list_all is_dict (test_bunches self) then (Inl AssertionError, self)
      else
        (case bunch_loop unset self usecase (test_bunches self) ([], []) of
           Inl e \<Rightarrow> (Inl e, self)
         | Inr (argvalues, ids) \<Rightarrow> (Inr ([''test_parameters''], argvalues, ids), self)))"

subsection \<open>get_test_case\<close>

text \<open>
  The dict comprehension \<open>{k: test_parameters[k] for k in keys}\<close>: the keys are read
  in order, and the first one missing from \<open>test_parameters\<close> raises \<open>KeyError\<close>.
\<close>

fun params_defining_cache :: "pydict \<Rightarrow> string list \<Rightarrow> pydict \<Rightarrow> exn + pydict" where
  "params_defining_cache test_parameters [] acc = Inr acc"
| "params_defining_cache test_parameters (k # ks) acc =
     (case dict_getitem test_parameters k of
        Inl e \<Rightarrow> Inl e
      | Inr v \<Rightarrow> params_defining_cache test_parameters ks (AList.update k v acc))"

text \<open>
  \<open>get_test_case\<close> returns what the call returns or raises, and the helper after the
  call. The constructor is called before \<open>cache.set\<close>, so when it raises the cache is
  not written.
\<close>

definition get_test_case ::
  "'f OTETestHelper \<Rightarrow> pydict \<Rightarrow> 'f \<Rightarrow> (exn + 'f test_case option) \<times> 'f OTETestHelper" where
  "get_test_case self test_parameters params_factories_for_test_actions =
     (case params_defining_cache test_parameters
             (test_parameters_defining_test_case_behavior self) [] of
        Inl e \<Rightarrow> (Inl e, self)
      | Inr params \<Rightarrow>
          if \<not> has_same_params (cache self) params then
            (let n = constructor_calls self;
                 self1 = self\<lparr>constructor_calls := Suc n\<rparr> in
             case init_raises (test_case_class self) n params_factories_for_test_actions of
               Some e \<Rightarrow> (Inl e, self1)
             | None \<Rightarrow>
                 (let test_case = TestCase n params_factories_for_test_actions;
                      self2 = self1\<lparr>cache := Cache_set params test_case (cache self1)\<rparr>
                  in (Inr (Cache_get (cache self2)), self2)))
          else (Inr (Cache_get (cache self)), self))"

subsection \<open>Notions used to state the properties of get_list_of_tests\<close>

text \<open>
  \<open>collect\<close> runs a list of computations that may raise, in order: the results, or the
  first exception. \<open>selected\<close> is the negation of the test that makes the loop skip a
  bunch. \<open>test_triple\<close> reads the model, the dataset and the stage of test parameters.
\<close>

fun collect :: "(exn + 'a) list \<Rightarrow> exn + 'a list" where
  "collect [] = Inr []"
| "collect (Inl e # rest) = Inl e"
| "collect (Inr v # rest) = (case collect rest of Inl e \<Rightarrow> Inl e | Inr vs \<Rightarrow> Inr (v # vs))"

definition selected :: "pyval \<Rightarrow> pydict \<Rightarrow> bool" where
  "selected usecase el \<longleftrightarrow> usecase = PNone \<or> dict_get el ''usecase'' = usecase"

definition test_triple :: "pydict \<Rightarrow> pyval \<times> pyval \<times> pyval" where
  "test_triple test_parameters =
     (dict_get test_parameters ''model_name'',
      dict_get test_parameters ''dataset_name'',
      dict_get test_parameters ''test_stage'')"

definition all_test_parameters ::
  "pyval \<Rightarrow> 'f OTETestHelper \<Rightarrow> pyval \<Rightarrow> pydict list \<Rightarrow> pydict list" where
  "all_test_parameters unset self usecase els =
     [test_parameters_of unset self el m d test_stage.
        el \<leftarrow> filter (selected usecase) els,
        m \<leftarrow> as_names (dict_get el ''model_name''),
        d \<leftarrow> as_names (dict_get el ''dataset_name''),
        test_stage \<leftarrow> get_list_of_test_stages (test_case_class self)]"

text \<open>The test parameters that the loop over the pairs and the loop body of one bunch make.\<close>

definition pair_tests ::
  "pyval \<Rightarrow> 'f OTETestHelper \<Rightarrow> pydict \<Rightarrow> (pyval \<times> pyval) list \<Rightarrow> pydict list" where
  "pair_tests unset self el pairs =
     concat (map (\<lambda>(m, d). map (test_parameters_of unset self el m d)
                    (get_list_of_test_stages (test_case_class self))) pairs)"

definition bunch_tests :: "pyval \<Rightarrow> 'f OTETestHelper \<Rightarrow> pydict \<Rightarrow> pydict list" where
  "bunch_tests unset self el = pair_tests unset self el (model_dataset_pairs el)"

text \<open>The \<open>argvalues\<close> of a call of \<open>get_list_of_tests\<close>, empty when it raises.\<close>

definition argvalues_of ::
  "(exn + string list \<times> pydict list \<times> string list) \<times> 'f OTETestHelper \<Rightarrow> pydict list" where
  "argvalues_of r = (case fst r of Inl e \<Rightarrow> [] | Inr (argnames, argvalues, ids) \<Rightarrow> argvalues)"

text \<open>
  A sequence of calls of \<open>get_test_case\<close>, each on the helper the call before it
  leaves: what each call returns or raises, and the number of constructor calls made
  when it ends.
\<close>

fun get_test_cases ::
  "'f OTETestHelper \<Rightarrow> (pydict \<times> 'f) list \<Rightarrow> ((exn + 'f test_case option) \<times> nat) list" where
  "get_test_cases self [] = []"
| "get_test_cases self ((test_parameters, f) # rest) =
     (let (r, self') = get_test_case self test_parameters f
      in (r, constructor_calls self') # get_test_cases self' rest)"

text \<open>The parts of the id of test parameters in which no key of the id-naming dict is missing.\<close>

definition rendered_parts :: "(string \<times> string) list \<Rightarrow> pydict \<Rightarrow> string list" where
  "rendered_parts names test_parameters =
     map (\<lambda>(par_name, short_par_name).
            short_par_name @ ''-'' @ py_str (dict_get test_parameters par_name)) names"

section \<open>get_list_of_tests on a store of dict objects\<close>

text \<open>
  The functions above treat a dict as a value, which leaves out that Python dicts are
  objects and that \<open>get_list_of_tests\<close> writes into some of them. Here the dicts live in
  a store, a list of dicts indexed by address: the bunches of the helper are the objects
  at given addresses, \<open>deepcopy(el)\<close> allocates a new object at the end of the store,
  \<open>test_parameters[k] = v\<close> and \<open>_fill_test_parameters_default_values\<close> write into
  the object they are given, and \<open>argvalues\<close> holds addresses. When a call of
  \<open>_generate_test_id\<close> raises, the objects allocated so far remain in the store.
  Every bunch is a dict object here, so the assertion of \<open>get_list_of_tests\<close> holds and
  is left out.
\<close>

type_synonym store = "pydict list"

definition setitem :: "nat \<Rightarrow> string \<Rightarrow> pyval \<Rightarrow> store \<Rightarrow> store" where
  \<comment> \<open>\<open>d[k] = v\<close> for the dict object \<open>d\<close> at address \<open>a\<close>\<close>
  "setitem a k v s = s[a := AList.update k v (s ! a)]"

fun fill_defaults_loop_st :: "pyval \<Rightarrow> pydict \<Rightarrow> nat \<Rightarrow> store \<Rightarrow> store" where
  "fill_defaults_loop_st unset [] a s = s"
| "fill_defaults_loop_st unset ((key, default_val) # rest) a s =
     (let val = dict_get (s ! a) key in
      if val = PNone \<or> val = unset
      then fill_defaults_loop_st unset rest a (setitem a key default_val s)
      else fill_defaults_loop_st unset rest a s)"

definition fill_test_parameters_default_values_st ::
  "pyval \<Rightarrow> 'f OTETestHelper \<Rightarrow> nat \<Rightarrow> store \<Rightarrow> store" where
  "fill_test_parameters_default_values_st unset self test_parameters s =
     fill_defaults_loop_st unset (default_test_parameters self) test_parameters s"

fun stage_loop_st ::
  "pyval \<Rightarrow> 'f OTETestHelper \<Rightarrow> nat \<Rightarrow> pyval \<Rightarrow> pyval \<Rightarrow> string list \<Rightarrow>
   nat list \<times> string list \<Rightarrow> store \<Rightarrow> (exn + nat list \<times> string list) \<times> store" where
  "stage_loop_st unset self el m d [] acc s = (Inr acc, s)"
| "stage_loop_st unset self el m d (test_stage # rest) acc s =
     (let test_parameters = length s;
          s1 = s @ [s ! el];
          s2 = setitem test_parameters ''test_stage'' (PStr test_stage) s1;
          s3 = setitem test_parameters ''model_name'' m s2;
          s4 = setitem test_parameters ''dataset_name'' d s3;
          s5 = fill_test_parameters_default_values_st unset self test_parameters s4
      in case generate_test_id self (s5 ! test_parameters) of
           Inl e \<Rightarrow> (Inl e, s5)
         | Inr i \<Rightarrow>
             stage_loop_st unset self el m d rest
               (fst acc @ [test_parameters], snd acc @ [i]) s5)"

fun pair_loop_st ::
  "pyval \<Rightarrow> 'f OTETestHelper \<Rightarrow> nat \<Rightarrow> (pyval \<times> pyval) list \<Rightarrow>
   nat list \<times> string list \<Rightarrow> store \<Rightarrow> (exn + nat list \<times> string list) \<times> store" where
  "pair_loop_st unset self el [] acc s = (Inr acc, s)"
| "pair_loop_st unset self el ((m, d) # rest) acc s =
     (case stage_loop_st unset self el m d
             (get_list_of_test_stages (test_case_class self)) acc s of
        (Inl e, s') \<Rightarrow> (Inl e, s')
      | (Inr acc', s') \<Rightarrow> pair_loop_st unset self el rest acc' s')"

fun bunch_loop_st ::
  "pyval \<Rightarrow> 'f OTETestHelper \<Rightarrow> pyval \<Rightarrow> nat list \<Rightarrow>
   nat list \<times> string list \<Rightarrow> store \<Rightarrow> (exn + nat list \<times> string list) \<times> store" where
  "bunch_loop_st unset self usecase [] acc s = (Inr acc, s)"
| "bunch_loop_st unset self usecase (el # rest) acc s =
     (let el_usecase = dict_get (s ! el) ''usecase'' in
      if usecase \<noteq> PNone \<and> el_usecase \<noteq> usecase
      then bunch_loop_st unset self usecase rest acc s
      else
        (case pair_loop_st unset self el (model_dataset_pairs (s ! el)) acc s of
           (Inl e, s') \<Rightarrow> (Inl e, s')
         | (Inr acc', s') \<Rightarrow> bunch_loop_st unset self usecase rest acc' s'))"

text \<open>
  \<open>get_list_of_tests\<close> for a helper whose test bunches are the dict objects at the
  addresses \<open>bunches\<close>: the result, with addresses for \<open>argvalues\<close>, and the store
  after the call. \<open>values_of\<close> reads the dicts at the addresses of a result.
\<close>

definition get_list_of_tests_st ::
  "pyval \<Rightarrow> 'f OTETestHelper \<Rightarrow> nat list \<Rightarrow> pyval \<Rightarrow> store \<Rightarrow>
   (exn + string list \<times> nat list \<times> string list) \<times> store" where
  "get_list_of_tests_st unset self bunches usecase s =
     (case bunch_loop_st unset self usecase bunches ([], []) s of
        (Inl e, s') \<Rightarrow> (Inl e, s')
      | (Inr (argvalues, ids), s') \<Rightarrow> (Inr ([''test_parameters''], argvalues, ids), s'))"

definition values_of ::
  "(exn + string list \<times> nat list \<times> string list) \<times> store \<Rightarrow>
   exn + string list \<times> pydict list \<times> string list" where
  "values_of r =
     (case fst r of
        Inl e \<Rightarrow> Inl e
      | Inr (argnames, argvalues, ids) \<Rightarrow> Inr (argnames, map (\<lambda>a. snd r ! a) argvalues, ids))"

text \<open>
  A loop result on the store agrees with a loop result on values: the store has grown at
  its end only, and the addresses of the result hold the values.
\<close>

definition agrees ::
  "(exn + nat list \<times> string list) \<times> store \<Rightarrow> store \<Rightarrow> exn + pydict list \<times> string list \<Rightarrow> bool" where
  "agrees r s v \<longleftrightarrow>
     (\<exists>new. snd r = s @ new) \<and>
     (case v of
        Inl e \<Rightarrow> fst r = Inl e
      | Inr (vals, ids) \<Rightarrow>
          (\<exists>refs. fst r = Inr (refs, ids) \<and> map (\<lambda>a. snd r ! a) refs = vals \<and>
                  (\<forall>a \<in> set refs. a < length (snd r))))"

section \<open>Example instances\<close>

text \<open>
  A test case class of two stages whose second constructor call raises, creation
  parameters with one bunch of two models and one dataset, the helper built from them,
  and that helper after one test case was built.
\<close>

definition example_class :: "unit test_case_class_model" where
  "example_class = \<lparr>get_list_of_test_stages = [''train'', ''eval''],
                     init_raises = (\<lambda>n f. if n = 1 then Some (CaseError ''failed'') else None)\<rparr>"

definition example_parameters :: "unit creation_parameters" where
  "example_parameters =
     \<lparr>cp_test_bunches =
        [Dict [(''model_name'', PList [PStr ''A'', PStr ''B'']),
               (''dataset_name'', PList [PStr ''X'']),
               (''usecase'', PStr ''precommit'')]],
      cp_test_case_class = example_class,
      cp_short_test_parameters_names_for_generating_id =
        [(''test_stage'', ''ACTION''), (''model_name'', ''model''),
         (''dataset_name'', ''dataset''), (''usecase'', ''usecase'')],
      cp_test_parameters_defining_test_case_behavior = [''model_name'', ''dataset_name''],
      cp_default_test_parameters = [(''batch_size'', PInt 2)]\<rparr>"

definition example_helper :: "unit OTETestHelper" where
  "example_helper =
     \<lparr>test_case_class = example_class,
      test_bunches = cp_test_bunches example_parameters,
      short_test_parameters_names_for_generating_id =
        cp_short_test_parameters_names_for_generating_id example_parameters,
      test_parameters_defining_test_case_behavior = [''model_name'', ''dataset_name''],
      default_test_parameters = [(''batch_size'', PInt 2)],
      cache = Cache_init,
      constructor_calls = 0\<rparr>"

definition one_built :: "unit OTETestHelper" where
  "one_built = example_helper\<lparr>
     cache := \<lparr>cache_parameters = [(''model_name'', PStr ''A''), (''dataset_name'', PStr ''X'')],
               cached_value = Some (TestCase 0 ())\<rparr>,
     constructor_calls := 1\<rparr>"

text \<open>
  Helpers with other bunches: two bunches of different usecases; one bunch without a
  usecase, the usecase being among the defaults; a bunch with an empty list of models
  after a bunch with one model.
\<close>

definition two_usecases :: "unit OTETestHelper" where
  "two_usecases = example_helper\<lparr>test_bunches :=
     [Dict [(''model_name'', PStr ''A''), (''dataset_name'', PStr ''X''),
            (''usecase'', PStr ''precommit'')],
      Dict [(''model_name'', PStr ''B''), (''dataset_name'', PStr ''X''),
            (''usecase'', PStr ''nightly'')]]\<rparr>"

definition no_usecase :: "unit OTETestHelper" where
  "no_usecase = example_helper\<lparr>
     test_bunches := [Dict [(''model_name'', PStr ''A''), (''dataset_name'', PStr ''X'')]],
     default_test_parameters := [(''usecase'', PStr ''precommit'')]\<rparr>"

definition empty_models :: "unit OTETestHelper" where
  "empty_models = example_helper\<lparr>test_bunches :=
     [Dict [(''model_name'', PStr ''A''), (''dataset_name'', PStr ''X''),
            (''usecase'', PStr ''precommit'')],
      Dict [(''model_name'', PList []), (''dataset_name'', PStr ''X''),
            (''usecase'', PStr ''precommit'')]]\<rparr>"

text \<open>
  The example helper with one bunch that holds the two models and the dataset and
  nothing else, so that it has no \<open>usecase\<close>, a key of the id-naming dict.
\<close>

definition models_and_dataset_only :: "unit OTETestHelper" where
  "models_and_dataset_only = example_helper\<lparr>test_bunches :=
     [Dict [(''model_name'', PList [PStr ''A'', PStr ''B'']),
            (''dataset_name'', PList [PStr ''X''])]]\<rparr>"

text \<open>The example helper with a test case class whose constructor never raises.\<close>

definition plain_helper :: "unit OTETestHelper" where
  "plain_helper = example_helper\<lparr>test_case_class :=
     \<lparr>get_list_of_test_stages = [''train'', ''eval''], init_raises = (\<lambda>n f. None)\<rparr>\<rparr>"

text \<open>
  The example helper with the id-naming dict of
  \<open>DefaultOTETestCreationParametersInterface\<close>, and test parameters that hold all its keys.
\<close>

definition default_names :: "unit OTETestHelper" where
  "default_names = example_helper\<lparr>short_test_parameters_names_for_generating_id :=
     [(''test_stage'', ''ACTION''), (''model_name'', ''model''), (''dataset_name'', ''dataset''),
      (''num_training_iters'', ''num_iters''), (''batch_size'', ''batch''),
      (''usecase'', ''usecase'')]\<rparr>"

definition example_test_parameters :: pydict where
  "example_test_parameters =
     [(''test_stage'', PStr ''train''), (''model_name'', PStr ''A''),
      (''dataset_name'', PStr ''X''), (''num_training_iters'', PInt 1),
      (''batch_size'', PInt 2), (''usecase'', PStr ''precommit'')]"

text \<open>A store that holds the bunch of the example helper at address 0.\<close>

definition example_store :: store where
  "example_store =
     [[(''model_name'', PList [PStr ''A'', PStr ''B'']),
       (''dataset_name'', PList [PStr ''X'']),
       (''usecase'', PStr ''precommit'')]]"

section \<open>Facts about get_test_case\<close>

lemma dict_getitem_missing: "k \<notin> fst ` set d \<Longrightarrow> dict_getitem d k = Inl (KeyError k)"
proof -
  assume "k \<notin> fst ` set d"
  then have "map_of d k = None" by (simp add: map_of_eq_None_iff)
  then show ?thesis by (simp add: dict_getitem_def)
qed

lemma dict_getitem_Inl: "dict_getitem d k = Inl e \<Longrightarrow> e = KeyError k \<and> k \<notin> fst ` set d"
  by (auto simp: dict_getitem_def map_of_eq_None_iff split: option.splits)

lemma params_defining_cache_missing:
  "k \<in> set ks \<Longrightarrow> k \<notin> fst ` set tp \<Longrightarrow>
   \<exists>k' \<in> set ks. k' \<notin> fst ` set tp \<and> params_defining_cache tp ks acc = Inl (KeyError k')"
proof (induction ks arbitrary: acc)
  case Nil
  then show ?case by simp
next
  case (Cons a ks)
  show ?case
  proof (cases "dict_getitem tp a")
    case (Inl e)
    then show ?thesis using dict_getitem_Inl[OF Inl] by auto
  next
    case (Inr v)
    then have "a \<noteq> k" using Cons.prems(2) by (auto simp: dict_getitem_missing)
    then have "k \<in> set ks" using Cons.prems(1) by simp
    from Cons.IH[OF this Cons.prems(2)] Inr show ?thesis by auto
  qed
qed

lemma dict_eq_Nil [simp]: "dict_eq [] []"
  by (simp add: dict_eq_def)

text \<open>
  C10. When the test parameters lack a key of the parameters defining the test case
  behaviour, \<open>get_test_case\<close> raises \<open>KeyError\<close> for such a key while it builds the
  parameters of the cache: the constructor is not called (the count of its calls stays),
  and the helper, its cache included, is as before.
\<close>

theorem get_test_case_missing_key:
  assumes "k \<in> set (test_parameters_defining_test_case_behavior self)"
      and "k \<notin> fst ` set test_parameters"
  shows "\<exists>k'. k' \<in> set (test_parameters_defining_test_case_behavior self) \<and>
              k' \<notin> fst ` set test_parameters \<and>
              get_test_case self test_parameters f = (Inl (KeyError k'), self)"
proof -
  from params_defining_cache_missing[OF assms, of "[]"]
  obtain k' where "k' \<in> set (test_parameters_defining_test_case_behavior self)"
    "k' \<notin> fst ` set test_parameters"
    "params_defining_cache test_parameters (test_parameters_defining_test_case_behavior self) []
       = Inl (KeyError k')" by blast
  then show ?thesis by (auto simp: get_test_case_def)
qed

theorem get_test_case_missing_key_witness:
  "''dataset_name'' \<in> set (test_parameters_defining_test_case_behavior example_helper) \<and>
   ''dataset_name'' \<notin> fst ` set [(''model_name'', PStr ''A'')] \<and>
   (\<exists>k'. k' \<in> set (test_parameters_defining_test_case_behavior example_helper) \<and>
         k' \<notin> fst ` set [(''model_name'', PStr ''A'')] \<and>
         get_test_case example_helper [(''model_name'', PStr ''A'')] ()
           = (Inl (KeyError k'), example_helper))"
proof -
  have a: "''dataset_name'' \<in> set (test_parameters_defining_test_case_behavior example_helper)"
    by (simp add: example_helper_def)
  have b: "''dataset_name'' \<notin> fst ` set [(''model_name'', PStr ''A'')]" by simp
  from get_test_case_missing_key[OF a b, of "()"] a b show ?thesis by blast
qed

text \<open>
  C9. With an empty list of parameters defining the test case behaviour the helper is
  constructed, and on the new helper every \<open>get_test_case\<close> derives the empty dict,
  which is the key the cache starts with: the call returns \<open>None\<close>, the value the cache
  starts with, and calls no constructor.
\<close>

theorem get_test_case_no_defining_parameters:
  assumes "cp_test_parameters_defining_test_case_behavior cp = []"
      and "{''test_stage'', ''model_name'', ''dataset_name'', ''usecase''}
             \<subseteq> fst ` set (cp_short_test_parameters_names_for_generating_id cp)"
  shows "\<exists>self. OTETestHelper_init cp = Inr self \<and>
           cache self = Cache_init \<and> constructor_calls self = 0 \<and>
           params_defining_cache test_parameters
             (test_parameters_defining_test_case_behavior self) []
               = Inr (cache_parameters (cache self)) \<and>
           get_test_case self test_parameters f = (Inr None, self)"
  using assms
  by (simp add: OTETestHelper_init_def Let_def get_test_case_def has_same_params_def
        Cache_init_def Cache_get_def)

theorem get_test_case_no_defining_parameters_witness:
  "cp_test_parameters_defining_test_case_behavior
     (example_parameters\<lparr>cp_test_parameters_defining_test_case_behavior := []\<rparr>) = [] \<and>
   {''test_stage'', ''model_name'', ''dataset_name'', ''usecase''}
     \<subseteq> fst ` set (cp_short_test_parameters_names_for_generating_id
           (example_parameters\<lparr>cp_test_parameters_defining_test_case_behavior := []\<rparr>)) \<and>
   (\<exists>self. OTETestHelper_init
             (example_parameters\<lparr>cp_test_parameters_defining_test_case_behavior := []\<rparr>) = Inr self \<and>
      get_test_case self [(''model_name'', PStr ''A'')] () = (Inr None, self))"
proof -
  let ?cp = "example_parameters\<lparr>cp_test_parameters_defining_test_case_behavior := []\<rparr>"
  have a: "cp_test_parameters_defining_test_case_behavior ?cp = []" by simp
  have b: "{''test_stage'', ''model_name'', ''dataset_name'', ''usecase''}
     \<subseteq> fst ` set (cp_short_test_parameters_names_for_generating_id ?cp)"
    by (simp add: example_parameters_def)
  from get_test_case_no_defining_parameters[OF a b, of "[(''model_name'', PStr ''A'')]" "()"] a b
  show ?thesis by blast
qed

text \<open>
  C2. When the constructor raises in \<open>get_test_case\<close>, the call raises that exception
  and the cache is as before, key and value; a later call whose parameters give the key
  the cache held returns the value the cache held, and leaves the helper as it is (no
  constructor call).
\<close>

theorem get_test_case_constructor_raises:
  assumes "params_defining_cache test_parameters
             (test_parameters_defining_test_case_behavior self) [] = Inr params"
      and "\<not> has_same_params (cache self) params"
      and "init_raises (test_case_class self) (constructor_calls self) f = Some e"
      and "get_test_case self test_parameters f = (r, self')"
  shows "r = Inl e \<and> cache self' = cache self \<and>
         (\<forall>test_parameters' f' old.
            params_defining_cache test_parameters'
              (test_parameters_defining_test_case_behavior self') [] = Inr old \<longrightarrow>
            has_same_params (cache self) old \<longrightarrow>
            get_test_case self' test_parameters' f' = (Inr (cached_value (cache self)), self'))"
  using assms
  by (auto simp: get_test_case_def Let_def Cache_get_def)


theorem get_test_case_constructor_raises_witness:
  "params_defining_cache [(''model_name'', PStr ''B''), (''dataset_name'', PStr ''X'')]
     (test_parameters_defining_test_case_behavior one_built) []
     = Inr [(''model_name'', PStr ''B''), (''dataset_name'', PStr ''X'')] \<and>
   \<not> has_same_params (cache one_built) [(''model_name'', PStr ''B''), (''dataset_name'', PStr ''X'')] \<and>
   init_raises (test_case_class one_built) (constructor_calls one_built) () = Some (CaseError ''failed'') \<and>
   get_test_case one_built [(''model_name'', PStr ''B''), (''dataset_name'', PStr ''X'')] ()
     = (Inl (CaseError ''failed''), one_built\<lparr>constructor_calls := 2\<rparr>) \<and>
   get_test_case (one_built\<lparr>constructor_calls := 2\<rparr>)
      [(''dataset_name'', PStr ''X''), (''model_name'', PStr ''A''), (''test_stage'', PStr ''eval'')] ()
     = (Inr (Some (TestCase 0 ())), one_built\<lparr>constructor_calls := 2\<rparr>)"
proof -
  let ?tp = "[(''model_name'', PStr ''B''), (''dataset_name'', PStr ''X'')]"
  let ?old = "[(''model_name'', PStr ''A''), (''dataset_name'', PStr ''X'')]"
  let ?self' = "one_built\<lparr>constructor_calls := 2\<rparr>"
  have a: "params_defining_cache ?tp (test_parameters_defining_test_case_behavior one_built) [] = Inr ?tp"
    by (simp add: one_built_def example_helper_def dict_getitem_def)
  have b: "\<not> has_same_params (cache one_built) ?tp"
    by (simp add: one_built_def example_helper_def has_same_params_def dict_eq_def)
  have c: "init_raises (test_case_class one_built) (constructor_calls one_built) () = Some (CaseError ''failed'')"
    by (simp add: one_built_def example_helper_def example_class_def)
  have d: "get_test_case one_built ?tp () = (Inl (CaseError ''failed''), ?self')"
    using a b c by (simp add: get_test_case_def Let_def) (simp add: one_built_def)
  have e: "params_defining_cache [(''dataset_name'', PStr ''X''), (''model_name'', PStr ''A''), (''test_stage'', PStr ''eval'')]
              (test_parameters_defining_test_case_behavior ?self') [] = Inr ?old"
    by (simp add: one_built_def example_helper_def dict_getitem_def)
  have f: "has_same_params (cache one_built) ?old"
    by (simp add: one_built_def example_helper_def has_same_params_def dict_eq_def)
  from get_test_case_constructor_raises[OF a b c d] e f
  have "get_test_case ?self' [(''dataset_name'', PStr ''X''), (''model_name'', PStr ''A''), (''test_stage'', PStr ''eval'')] ()
     = (Inr (cached_value (cache one_built)), ?self')" by blast
  then show ?thesis using a b c d by (simp add: one_built_def)
qed

section \<open>Facts about the default values\<close>

lemma dict_get_update:
  "dict_get (AList.update k v d) k' = (if k' = k then v else dict_get d k')"
  by (simp add: dict_get_def update_conv')

lemma map_of_fill_defaults_loop:
  "distinct (map fst ds) \<Longrightarrow>
   map_of (fill_defaults_loop unset ds tp) k =
     (case map_of ds k of
        None \<Rightarrow> map_of tp k
      | Some dv \<Rightarrow> if dict_get tp k = PNone \<or> dict_get tp k = unset then Some dv else map_of tp k)"
proof (induction ds arbitrary: tp)
  case Nil
  then show ?case by simp
next
  case (Cons p ds)
  obtain key dv where p: "p = (key, dv)" by (cases p)
  from Cons.prems p have dist: "distinct (map fst ds)" and notin: "key \<notin> fst ` set ds" by auto
  from notin have none: "map_of ds key = None" by (simp add: map_of_eq_None_iff)
  show ?case
  proof (cases "k = key")
    case True
    then show ?thesis using Cons.IH[OF dist] none p
      by (simp add: Let_def update_conv')
  next
    case False
    then show ?thesis using Cons.IH[OF dist] p
      by (auto simp: Let_def update_conv' dict_get_update split: option.splits)
  qed
qed

lemma map_of_fill_defaults_loop_other:
  "k \<notin> fst ` set ds \<Longrightarrow> map_of (fill_defaults_loop unset ds tp) k = map_of tp k"
  by (induction ds arbitrary: tp) (auto simp: Let_def update_conv')

text \<open>
  C6, as the code has it. For a key of the defaults (a dict, so its keys are distinct):
  test parameters that miss the key, hold \<open>None\<close> for it or hold the unset value for
  it receive the default; test parameters that hold any other value keep it.
\<close>

theorem fill_test_parameters_default_values_cases:
  assumes "distinct (map fst (default_test_parameters self))"
      and "(key, default_val) \<in> set (default_test_parameters self)"
  shows "(key \<notin> fst ` set test_parameters \<longrightarrow>
            map_of (fill_test_parameters_default_values unset self test_parameters) key
              = Some default_val) \<and>
         (map_of test_parameters key = Some PNone \<longrightarrow>
            map_of (fill_test_parameters_default_values unset self test_parameters) key
              = Some default_val) \<and>
         (map_of test_parameters key = Some unset \<longrightarrow>
            map_of (fill_test_parameters_default_values unset self test_parameters) key
              = Some default_val) \<and>
         (\<forall>v. map_of test_parameters key = Some v \<longrightarrow> v \<noteq> PNone \<longrightarrow> v \<noteq> unset \<longrightarrow>
            map_of (fill_test_parameters_default_values unset self test_parameters) key
              = Some v)"
proof -
  from assms have m: "map_of (default_test_parameters self) key = Some default_val"
    by simp
  have none: "key \<notin> fst ` set test_parameters \<Longrightarrow> map_of test_parameters key = None"
    by (simp add: map_of_eq_None_iff)
  show ?thesis
    unfolding fill_test_parameters_default_values_def
      map_of_fill_defaults_loop[OF assms(1)] m
    using none by (auto simp: dict_get_def)
qed

theorem fill_test_parameters_default_values_cases_witness:
  "distinct (map fst (default_test_parameters example_helper)) \<and>
   (''batch_size'', PInt 2) \<in> set (default_test_parameters example_helper) \<and>
   ''batch_size'' \<notin> fst ` set [(''model_name'', PStr ''A'')] \<and>
   map_of (fill_test_parameters_default_values (PStr ''unset'') example_helper
             [(''model_name'', PStr ''A'')]) ''batch_size'' = Some (PInt 2) \<and>
   map_of [(''batch_size'', PInt 8)] ''batch_size'' = Some (PInt 8) \<and>
   map_of (fill_test_parameters_default_values (PStr ''unset'') example_helper
             [(''batch_size'', PInt 8)]) ''batch_size'' = Some (PInt 8)"
proof -
  have a: "distinct (map fst (default_test_parameters example_helper))"
    by (simp add: example_helper_def)
  have b: "(''batch_size'', PInt 2) \<in> set (default_test_parameters example_helper)"
    by (simp add: example_helper_def)
  have c: "''batch_size'' \<notin> fst ` set [(''model_name'', PStr ''A'')]" by simp
  have d: "map_of [(''batch_size'', PInt 8)] ''batch_size'' = Some (PInt 8)" by simp
  from fill_test_parameters_default_values_cases[OF a b,
      of "[(''model_name'', PStr ''A'')]" "PStr ''unset''"] c
  have e: "map_of (fill_test_parameters_default_values (PStr ''unset'') example_helper
             [(''model_name'', PStr ''A'')]) ''batch_size'' = Some (PInt 2)" by blast
  from fill_test_parameters_default_values_cases[OF a b,
      of "[(''batch_size'', PInt 8)]" "PStr ''unset''"] d
  have f: "map_of (fill_test_parameters_default_values (PStr ''unset'') example_helper
             [(''batch_size'', PInt 8)]) ''batch_size'' = Some (PInt 8)" by simp
  from a b c d e f show ?thesis by blast
qed

text \<open>
  The claim as the specification words it fails on an explicit \<open>None\<close>: a bunch that
  gives \<open>batch_size=None\<close> holds an explicit value that is not the unset value, and the
  test parameters made from it hold the default 2, not \<open>None\<close>.
\<close>

theorem fill_defaults_explicit_None_counterexample:
  "map_of [(''model_name'', PStr ''A''), (''batch_size'', PNone)] ''batch_size'' = Some PNone \<and>
   PNone \<noteq> PStr ''unset'' \<and>
   (''batch_size'', PInt 2) \<in> set (default_test_parameters example_helper) \<and>
   map_of (fill_test_parameters_default_values (PStr ''unset'') example_helper
      [(''model_name'', PStr ''A''), (''batch_size'', PNone)]) ''batch_size'' \<noteq> Some PNone \<and>
   map_of (test_parameters_of (PStr ''unset'') example_helper
      [(''model_name'', PStr ''A''), (''batch_size'', PNone)] (PStr ''A'') (PStr ''X'') ''train'')
      ''batch_size'' = Some (PInt 2)"
  by (simp add: fill_test_parameters_default_values_def example_helper_def dict_get_def
       test_parameters_of_def)

section \<open>Facts about get_list_of_tests\<close>

lemma collect_append:
  "collect (xs @ ys) =
     (case collect xs of
        Inl e \<Rightarrow> Inl e
      | Inr a \<Rightarrow> (case collect ys of Inl e \<Rightarrow> Inl e | Inr b \<Rightarrow> Inr (a @ b)))"
proof (induction xs)
  case Nil
  show ?case by (simp split: sum.splits)
next
  case (Cons x xs)
  then show ?case by (cases x) (simp_all split: sum.splits)
qed

lemma collect_Inr_iff: "collect xs = Inr vs \<longleftrightarrow> xs = map Inr vs"
proof (induction xs arbitrary: vs)
  case Nil
  show ?case by auto
next
  case (Cons x xs)
  show ?case
  proof (cases x)
    case (Inl e)
    then show ?thesis by (cases vs) auto
  next
    case (Inr v)
    have "collect (x # xs) = Inr vs \<longleftrightarrow> (\<exists>vs'. vs = v # vs' \<and> collect xs = Inr vs')"
      using Inr by (auto split: sum.splits)
    also have "\<dots> \<longleftrightarrow> (\<exists>vs'. vs = v # vs' \<and> xs = map Inr vs')"
      using Cons.IH by simp
    also have "\<dots> \<longleftrightarrow> x # xs = map Inr vs"
      using Inr by (cases vs) auto
    finally show ?thesis .
  qed
qed

text \<open>The loops compute the test parameters in order and stop at the first id that raises.\<close>

lemma stage_loop_collect:
  "stage_loop unset self el m d sts acc =
     (case collect (map (\<lambda>st. generate_test_id self (test_parameters_of unset self el m d st)) sts) of
        Inl e \<Rightarrow> Inl e
      | Inr ids \<Rightarrow> Inr (fst acc @ map (test_parameters_of unset self el m d) sts, snd acc @ ids))"
proof (induction sts arbitrary: acc)
  case Nil
  show ?case by simp
next
  case (Cons st sts)
  show ?case
    by (cases "generate_test_id self (test_parameters_of unset self el m d st)")
       (simp_all add: Let_def Cons.IH split: sum.splits)
qed

lemma pair_loop_collect:
  "pair_loop unset self el pairs acc =
     (case collect (map (generate_test_id self) (pair_tests unset self el pairs)) of
        Inl e \<Rightarrow> Inl e
      | Inr ids \<Rightarrow> Inr (fst acc @ pair_tests unset self el pairs, snd acc @ ids))"
proof (induction pairs arbitrary: acc)
  case Nil
  show ?case by (simp add: pair_tests_def)
next
  case (Cons p pairs)
  obtain m d where p: "p = (m, d)" by (cases p)
  have pt: "pair_tests unset self el ((m, d) # pairs) =
      map (test_parameters_of unset self el m d) (get_list_of_test_stages (test_case_class self))
      @ pair_tests unset self el pairs"
    by (simp add: pair_tests_def)
  show ?case
    unfolding p pt
    by (simp add: stage_loop_collect collect_append Cons.IH comp_def split: sum.splits)
qed

lemma concat_product:
  "concat (map (\<lambda>(m, d). f m d) (List.product ms ds)) =
   concat (map (\<lambda>m. concat (map (\<lambda>d. f m d) ds)) ms)"
  by (induction ms) (simp_all add: comp_def)

lemma bunch_tests_eq:
  "bunch_tests unset self el =
     [test_parameters_of unset self el m d test_stage.
        m \<leftarrow> as_names (dict_get el ''model_name''),
        d \<leftarrow> as_names (dict_get el ''dataset_name''),
        test_stage \<leftarrow> get_list_of_test_stages (test_case_class self)]"
  by (simp add: bunch_tests_def pair_tests_def model_dataset_pairs_def concat_product)

lemma all_test_parameters_eq:
  "all_test_parameters unset self usecase els =
     concat (map (bunch_tests unset self) (filter (selected usecase) els))"
  by (simp add: all_test_parameters_def bunch_tests_eq[symmetric])

lemma bunch_loop_collect:
  "bunch_loop unset self usecase (map Dict els) acc =
     (case collect (map (generate_test_id self) (all_test_parameters unset self usecase els)) of
        Inl e \<Rightarrow> Inl e
      | Inr ids \<Rightarrow> Inr (fst acc @ all_test_parameters unset self usecase els, snd acc @ ids))"
proof (induction els arbitrary: acc)
  case Nil
  show ?case by (simp add: all_test_parameters_eq)
next
  case (Cons el els)
  show ?case
  proof (cases "selected usecase el")
    case False
    then have a: "all_test_parameters unset self usecase (el # els) =
       all_test_parameters unset self usecase els"
      by (simp add: all_test_parameters_eq)
    from False have "usecase \<noteq> PNone \<and> dict_get el ''usecase'' \<noteq> usecase"
      by (auto simp: selected_def)
    then show ?thesis
      unfolding a by (simp add: Let_def Cons.IH)
  next
    case True
    have a: "all_test_parameters unset self usecase (el # els) =
       bunch_tests unset self el @ all_test_parameters unset self usecase els"
      using True by (simp add: all_test_parameters_eq)
    from True have sel: "\<not> (usecase \<noteq> PNone \<and> dict_get el ''usecase'' \<noteq> usecase)"
      by (auto simp: selected_def)
    show ?thesis
      unfolding a
      using sel
      by (auto simp: Let_def pair_loop_collect collect_append Cons.IH bunch_tests_def
            split: sum.splits)
  qed
qed

lemma get_list_of_tests_collect:
  assumes "test_bunches self = map Dict els"
  shows "get_list_of_tests unset self usecase =
     (case collect (map (generate_test_id self) (all_test_parameters unset self usecase els)) of
        Inl e \<Rightarrow> (Inl e, self)
      | Inr ids \<Rightarrow>
          (Inr ([''test_parameters''], all_test_parameters unset self usecase els, ids), self))"
proof -
  have "list_all is_dict (map Dict els)" by (induction els) simp_all
  then show ?thesis
    by (simp add: get_list_of_tests_def assms bunch_loop_collect split: sum.splits)
qed

lemma generate_test_id_bunches [simp]:
  "generate_test_id (self\<lparr>test_bunches := b\<rparr>) = generate_test_id self"
  by (rule ext) (simp add: generate_test_id_def)

lemma test_parameters_of_bunches [simp]:
  "test_parameters_of unset (self\<lparr>test_bunches := b\<rparr>) = test_parameters_of unset self"
  by (intro ext) (simp add: test_parameters_of_def fill_test_parameters_default_values_def)

lemma all_test_parameters_bunches [simp]:
  "all_test_parameters unset (self\<lparr>test_bunches := b\<rparr>) = all_test_parameters unset self"
  by (intro ext) (simp add: all_test_parameters_def)

lemma fst_get_list_of_tests:
  assumes "test_bunches self = map Dict els"
  shows "fst (get_list_of_tests unset self usecase) =
     (case collect (map (generate_test_id self) (all_test_parameters unset self usecase els)) of
        Inl e \<Rightarrow> Inl e
      | Inr ids \<Rightarrow> Inr ([''test_parameters''], all_test_parameters unset self usecase els, ids))"
  by (simp add: get_list_of_tests_collect[OF assms] split: sum.splits)

lemma bunch_tests_empty:
  "as_names (dict_get el ''model_name'') = [] \<or> as_names (dict_get el ''dataset_name'') = []
   \<Longrightarrow> bunch_tests unset self el = []"
  by (auto simp: bunch_tests_eq)

lemma all_test_parameters_skip:
  "bunch_tests unset self el = [] \<Longrightarrow>
   all_test_parameters unset self usecase (els1 @ el # els2) =
   all_test_parameters unset self usecase (els1 @ els2)"
  by (simp add: all_test_parameters_eq)

text \<open>
  C4, as the code has it. When an element of the test bunches is not a dict,
  \<open>get_list_of_tests\<close> raises \<open>AssertionError\<close> and returns nothing. A bunch whose
  list of models or of datasets is empty raises nothing: it adds no test, and the call
  returns what it returns on the bunches without that one.
\<close>

theorem get_list_of_tests_errors:
  "(\<not> list_all is_dict (test_bunches self) \<longrightarrow>
      get_list_of_tests unset self usecase = (Inl AssertionError, self)) \<and>
   (test_bunches self = map Dict (els1 @ el # els2) \<longrightarrow>
    as_names (dict_get el ''model_name'') = [] \<or> as_names (dict_get el ''dataset_name'') = [] \<longrightarrow>
      fst (get_list_of_tests unset self usecase) =
      fst (get_list_of_tests unset (self\<lparr>test_bunches := map Dict (els1 @ els2)\<rparr>) usecase))"
proof (intro conjI impI)
  assume "\<not> list_all is_dict (test_bunches self)"
  then show "get_list_of_tests unset self usecase = (Inl AssertionError, self)"
    by (simp add: get_list_of_tests_def)
next
  assume b: "test_bunches self = map Dict (els1 @ el # els2)"
    and e: "as_names (dict_get el ''model_name'') = [] \<or> as_names (dict_get el ''dataset_name'') = []"
  have b': "test_bunches (self\<lparr>test_bunches := map Dict (els1 @ els2)\<rparr>) = map Dict (els1 @ els2)"
    by simp
  show "fst (get_list_of_tests unset self usecase) =
      fst (get_list_of_tests unset (self\<lparr>test_bunches := map Dict (els1 @ els2)\<rparr>) usecase)"
    unfolding fst_get_list_of_tests[OF b] fst_get_list_of_tests[OF b']
    by (simp add: all_test_parameters_skip[OF bunch_tests_empty[OF e]] cong: sum.case_cong)
qed

lemma all_test_parameters_filter:
  "usecase \<noteq> PNone \<Longrightarrow>
   all_test_parameters unset self usecase els =
   all_test_parameters unset self PNone (filter (\<lambda>el. dict_get el ''usecase'' = usecase) els)"
proof -
  assume "usecase \<noteq> PNone"
  then have "selected usecase = (\<lambda>el. dict_get el ''usecase'' = usecase)"
    by (intro ext) (simp add: selected_def)
  moreover have "selected PNone = (\<lambda>el. True)"
    by (intro ext) (simp add: selected_def)
  ultimately show ?thesis by (simp add: all_test_parameters_eq)
qed

lemma set_all_test_parameters:
  "set (all_test_parameters unset self usecase els) =
     (\<Union>el \<in> {el \<in> set els. selected usecase el}. set (bunch_tests unset self el))"
  by (auto simp: all_test_parameters_eq)

lemma collect_map_total:
  "(\<forall>x \<in> set xs. \<exists>v. f x = Inr v) \<Longrightarrow> \<exists>vs. collect (map f xs) = Inr vs"
proof (induction xs)
  case Nil
  show ?case by simp
next
  case (Cons x xs)
  then obtain v vs where "f x = Inr v" "collect (map f xs) = Inr vs" by auto
  then show ?case by simp
qed

lemma collect_map_Inr_D:
  "collect (map f xs) = Inr vs \<Longrightarrow> x \<in> set xs \<Longrightarrow> \<exists>v. f x = Inr v"
proof (induction xs arbitrary: vs)
  case Nil
  then show ?case by simp
next
  case (Cons y ys)
  then show ?case by (cases "f y") (auto split: sum.splits)
qed

text \<open>
  C7, as the code has it. With a filter \<open>usecase\<close> other than \<open>None\<close>, the call returns
  what the call without filter returns on the bunches whose \<open>usecase\<close> field equals the
  filter, in their order: the tests of those bunches and of no other. When the call
  without filter returns, so does the call with any filter, and its tests are those of all
  the filters other than \<open>None\<close> together with the tests of the bunches whose
  \<open>usecase\<close> is \<open>None\<close> or missing.
\<close>

theorem get_list_of_tests_usecase:
  assumes "test_bunches self = map Dict els"
  shows "(usecase \<noteq> PNone \<longrightarrow>
            fst (get_list_of_tests unset self usecase) =
            fst (get_list_of_tests unset
                   (self\<lparr>test_bunches :=
                      map Dict (filter (\<lambda>el. dict_get el ''usecase'' = usecase) els)\<rparr>) PNone)) \<and>
         (\<forall>argnames argvalues ids.
            fst (get_list_of_tests unset self PNone) = Inr (argnames, argvalues, ids) \<longrightarrow>
            (\<forall>u. \<exists>argnames' argvalues' ids'.
                fst (get_list_of_tests unset self u) = Inr (argnames', argvalues', ids')) \<and>
            set argvalues =
              (\<Union>u \<in> {u. u \<noteq> PNone}. set (argvalues_of (get_list_of_tests unset self u))) \<union>
              set (argvalues_of (get_list_of_tests unset
                     (self\<lparr>test_bunches :=
                        map Dict (filter (\<lambda>el. dict_get el ''usecase'' = PNone) els)\<rparr>) PNone)))"
proof (intro conjI impI allI)
  assume u: "usecase \<noteq> PNone"
  let ?els' = "filter (\<lambda>el. dict_get el ''usecase'' = usecase) els"
  have b': "test_bunches (self\<lparr>test_bunches := map Dict ?els'\<rparr>) = map Dict ?els'" by simp
  show "fst (get_list_of_tests unset self usecase) =
        fst (get_list_of_tests unset (self\<lparr>test_bunches := map Dict ?els'\<rparr>) PNone)"
    unfolding fst_get_list_of_tests[OF assms] fst_get_list_of_tests[OF b']
    by (simp add: all_test_parameters_filter[OF u] cong: sum.case_cong)
next
  fix argnames argvalues ids
  assume r: "fst (get_list_of_tests unset self PNone) = Inr (argnames, argvalues, ids)"
  from r have c: "collect (map (generate_test_id self) (all_test_parameters unset self PNone els))
      = Inr ids" and av: "argvalues = all_test_parameters unset self PNone els"
    unfolding fst_get_list_of_tests[OF assms] by (auto split: sum.splits)
  have sub: "set (all_test_parameters unset self u els')
      \<subseteq> set (all_test_parameters unset self PNone els)" if "set els' \<subseteq> set els" for u els'
    using that by (auto simp: set_all_test_parameters selected_def)
  have ok: "\<exists>vs. collect (map (generate_test_id self) (all_test_parameters unset self u els')) = Inr vs"
    if "set els' \<subseteq> set els" for u els'
    using sub[OF that, of u] collect_map_Inr_D[OF c]
    by (intro collect_map_total) blast
  have val: "argvalues_of (get_list_of_tests unset self u) = all_test_parameters unset self u els" for u
    using ok[of els u]
    by (auto simp: argvalues_of_def fst_get_list_of_tests[OF assms])
  let ?n = "filter (\<lambda>el. dict_get el ''usecase'' = PNone) els"
  have bn: "test_bunches (self\<lparr>test_bunches := map Dict ?n\<rparr>) = map Dict ?n" by simp
  have valn: "argvalues_of (get_list_of_tests unset (self\<lparr>test_bunches := map Dict ?n\<rparr>) PNone)
      = all_test_parameters unset self PNone ?n"
    using ok[of ?n PNone]
    by (auto simp: argvalues_of_def fst_get_list_of_tests[OF bn])
  show "\<exists>argnames' argvalues' ids'.
      fst (get_list_of_tests unset self u) = Inr (argnames', argvalues', ids')" for u
    using ok[of els u] by (auto simp: fst_get_list_of_tests[OF assms])
  show "set argvalues =
      (\<Union>u \<in> {u. u \<noteq> PNone}. set (argvalues_of (get_list_of_tests unset self u))) \<union>
      set (argvalues_of (get_list_of_tests unset (self\<lparr>test_bunches := map Dict ?n\<rparr>) PNone))"
    unfolding val valn av set_all_test_parameters
    by (auto simp: selected_def)
qed


lemma keys_fill_defaults_loop:
  "fst ` set tp \<union> fst ` set ds \<subseteq> fst ` set (fill_defaults_loop unset ds tp)"
proof (induction ds arbitrary: tp)
  case Nil
  show ?case by simp
next
  case (Cons p ds)
  obtain key dv where p: "p = (key, dv)" by (cases p)
  show ?case
  proof (cases "dict_get tp key = PNone \<or> dict_get tp key = unset")
    case True
    then show ?thesis
      using Cons.IH[of "AList.update key dv tp"] by (auto simp: p dom_update)
  next
    case False
    then have "map_of tp key \<noteq> None" by (auto simp: dict_get_def split: option.splits)
    then have "key \<in> fst ` set tp" by (simp add: map_of_eq_None_iff)
    then show ?thesis using Cons.IH[of tp] False by (auto simp: p)
  qed
qed

lemma keys_test_parameters_of:
  "fst ` set el \<union> {''test_stage'', ''model_name'', ''dataset_name''}
     \<union> fst ` set (default_test_parameters self)
   \<subseteq> fst ` set (test_parameters_of unset self el m d st)"
proof -
  let ?tp = "AList.update ''dataset_name'' d
         (AList.update ''model_name'' m (AList.update ''test_stage'' (PStr st) el))"
  have "fst ` set ?tp = fst ` set el \<union> {''test_stage'', ''model_name'', ''dataset_name''}"
    by (auto simp: dom_update)
  then show ?thesis
    using keys_fill_defaults_loop[of ?tp "default_test_parameters self" unset]
    by (simp add: test_parameters_of_def fill_test_parameters_default_values_def)
qed

lemma id_parts_total:
  "fst ` set names \<subseteq> fst ` set tp \<Longrightarrow> \<exists>parts. id_parts names tp = Inr parts"
proof (induction names)
  case Nil
  show ?case by simp
next
  case (Cons p names)
  obtain par_name short where p: "p = (par_name, short)" by (cases p)
  from Cons.prems p have "par_name \<in> fst ` set tp" by simp
  then have "map_of tp par_name \<noteq> None" by (simp add: map_of_eq_None_iff)
  then obtain v where "dict_getitem tp par_name = Inr v"
    by (auto simp: dict_getitem_def)
  moreover from Cons obtain parts where "id_parts names tp = Inr parts" by auto
  ultimately show ?case by (simp add: p)
qed

lemma generate_test_id_total:
  "fst ` set (short_test_parameters_names_for_generating_id self) \<subseteq> fst ` set tp
   \<Longrightarrow> \<exists>i. generate_test_id self tp = Inr i"
  using id_parts_total[of "short_test_parameters_names_for_generating_id self" tp]
  by (auto simp: generate_test_id_def)

lemma dict_get_fill_defaults_loop_keeps:
  "dict_get tp k \<noteq> PNone \<Longrightarrow> dict_get tp k \<noteq> unset \<Longrightarrow>
   dict_get (fill_defaults_loop unset ds tp) k = dict_get tp k"
proof (induction ds arbitrary: tp)
  case Nil
  show ?case by simp
next
  case (Cons p ds)
  obtain key dv where p: "p = (key, dv)" by (cases p)
  show ?case
  proof (cases "key = k")
    case True
    then show ?thesis using Cons by (simp add: p)
  next
    case False
    then show ?thesis using Cons by (simp add: p Let_def dict_get_update)
  qed
qed

lemma test_triple_test_parameters_of:
  assumes "m \<noteq> PNone" "m \<noteq> unset" "d \<noteq> PNone" "d \<noteq> unset" "PStr st \<noteq> unset"
  shows "test_triple (test_parameters_of unset self el m d st) = (m, d, PStr st)"
  using assms
  by (simp add: test_triple_def test_parameters_of_def fill_test_parameters_default_values_def
        dict_get_fill_defaults_loop_keeps dict_get_update)

text \<open>
  C3, as the code has it. When the bunches are dicts and every key of the id-naming dict
  is a key of each bunch that passes the filter, of the defaults, or one of \<open>test_stage\<close>,
  \<open>model_name\<close>, \<open>dataset_name\<close> (so that no id raises \<open>KeyError\<close>),
  \<open>get_list_of_tests\<close> returns the tests in the order of the bunches, within a bunch
  in the order of the models, within a model in the order of the datasets, and within a
  pair in the order of the stages, with one id for each test. For one bunch with the models
  \<open>[a, b]\<close>, the datasets \<open>[x]\<close> and the stages \<open>[s1, s2]\<close>, none of them
  \<open>None\<close> or the unset value, these are the four tests \<open>(a, x, s1)\<close>,
  \<open>(a, x, s2)\<close>, \<open>(b, x, s1)\<close>, \<open>(b, x, s2)\<close> in this order.
\<close>

theorem get_list_of_tests_order:
  assumes "test_bunches self = map Dict els"
      and "\<forall>el \<in> set els. selected usecase el \<longrightarrow>
             fst ` set (short_test_parameters_names_for_generating_id self)
             \<subseteq> fst ` set el \<union> {''test_stage'', ''model_name'', ''dataset_name''}
                 \<union> fst ` set (default_test_parameters self)"
  shows "(\<exists>argvalues ids.
            fst (get_list_of_tests unset self usecase) = Inr ([''test_parameters''], argvalues, ids) \<and>
            argvalues =
              [test_parameters_of unset self el m d test_stage.
                 el \<leftarrow> filter (selected usecase) els,
                 m \<leftarrow> as_names (dict_get el ''model_name''),
                 d \<leftarrow> as_names (dict_get el ''dataset_name''),
                 test_stage \<leftarrow> get_list_of_test_stages (test_case_class self)] \<and>
            map (generate_test_id self) argvalues = map Inr ids) \<and>
         (els = [el] \<and> selected usecase el \<and>
          dict_get el ''model_name'' = PList [a, b] \<and> dict_get el ''dataset_name'' = PList [x] \<and>
          get_list_of_test_stages (test_case_class self) = [s1, s2] \<and>
          {a, b, x, PStr s1, PStr s2} \<inter> {PNone, unset} = {} \<longrightarrow>
          (\<exists>r1 r2 r3 r4 i1 i2 i3 i4.
             fst (get_list_of_tests unset self usecase)
               = Inr ([''test_parameters''], [r1, r2, r3, r4], [i1, i2, i3, i4]) \<and>
             map test_triple [r1, r2, r3, r4]
               = [(a, x, PStr s1), (a, x, PStr s2), (b, x, PStr s1), (b, x, PStr s2)]))"
proof -
  let ?all = "all_test_parameters unset self usecase els"
  have "\<exists>i. generate_test_id self r = Inr i" if "r \<in> set ?all" for r
  proof -
    from that obtain el m d st where "el \<in> set els" "selected usecase el"
      and r: "r = test_parameters_of unset self el m d st"
      by (auto simp: all_test_parameters_def)
    with assms(2) have "fst ` set (short_test_parameters_names_for_generating_id self)
        \<subseteq> fst ` set r"
      using keys_test_parameters_of[of el self unset m d st] unfolding r by blast
    then show ?thesis by (rule generate_test_id_total)
  qed
  then obtain ids where c: "collect (map (generate_test_id self) ?all) = Inr ids"
    using collect_map_total[of ?all "generate_test_id self"] by blast
  then have m: "map (generate_test_id self) ?all = map Inr ids"
    by (simp add: collect_Inr_iff)
  have res: "fst (get_list_of_tests unset self usecase) = Inr ([''test_parameters''], ?all, ids)"
    by (simp add: fst_get_list_of_tests[OF assms(1)] c)
  have first: "\<exists>argvalues ids.
      fst (get_list_of_tests unset self usecase) = Inr ([''test_parameters''], argvalues, ids) \<and>
      argvalues =
        [test_parameters_of unset self el m d test_stage.
           el \<leftarrow> filter (selected usecase) els,
           m \<leftarrow> as_names (dict_get el ''model_name''),
           d \<leftarrow> as_names (dict_get el ''dataset_name''),
           test_stage \<leftarrow> get_list_of_test_stages (test_case_class self)] \<and>
      map (generate_test_id self) argvalues = map Inr ids"
    using res m unfolding all_test_parameters_def by blast
  have second: "\<exists>r1 r2 r3 r4 i1 i2 i3 i4.
       fst (get_list_of_tests unset self usecase)
         = Inr ([''test_parameters''], [r1, r2, r3, r4], [i1, i2, i3, i4]) \<and>
       map test_triple [r1, r2, r3, r4]
         = [(a, x, PStr s1), (a, x, PStr s2), (b, x, PStr s1), (b, x, PStr s2)]"
    if ex: "els = [el] \<and> selected usecase el \<and>
          dict_get el ''model_name'' = PList [a, b] \<and> dict_get el ''dataset_name'' = PList [x] \<and>
          get_list_of_test_stages (test_case_class self) = [s1, s2] \<and>
          {a, b, x, PStr s1, PStr s2} \<inter> {PNone, unset} = {}"
  proof -
    let ?r = "\<lambda>m st. test_parameters_of unset self el m x st"
    from ex have all: "?all = [?r a s1, ?r a s2, ?r b s1, ?r b s2]"
      by (simp add: all_test_parameters_def as_names_def)
    have "length (map (generate_test_id self) ?all) = length (map Inr ids :: (exn + string) list)"
      using m by simp
    then have "length ids = Suc (Suc (Suc (Suc 0)))" unfolding all by simp
    then obtain i1 i2 i3 i4 where ids: "ids = [i1, i2, i3, i4]"
      by (auto simp: length_Suc_conv)
    from ex have ne: "a \<noteq> PNone" "a \<noteq> unset" "b \<noteq> PNone" "b \<noteq> unset"
      "x \<noteq> PNone" "x \<noteq> unset" "PStr s1 \<noteq> unset" "PStr s2 \<noteq> unset" by auto
    have t: "map test_triple [?r a s1, ?r a s2, ?r b s1, ?r b s2]
        = [(a, x, PStr s1), (a, x, PStr s2), (b, x, PStr s1), (b, x, PStr s2)]"
      by (simp add: test_triple_test_parameters_of ne)
    have res': "fst (get_list_of_tests unset self usecase)
        = Inr ([''test_parameters''], [?r a s1, ?r a s2, ?r b s1, ?r b s2], [i1, i2, i3, i4])"
      using res unfolding all ids .
    show ?thesis by (intro exI conjI, rule res', rule t)
  qed
  from first second show ?thesis by blast
qed

subsection \<open>The properties on the example instances\<close>

lemmas ev_defs = get_list_of_tests_def example_helper_def example_parameters_def example_class_def
      model_dataset_pairs_def as_names_def dict_get_def dict_getitem_def test_parameters_of_def
      fill_test_parameters_default_values_def generate_test_id_def py_str_def Let_def

theorem get_list_of_tests_order_witness:
  "test_bunches example_helper =
     map Dict [[(''model_name'', PList [PStr ''A'', PStr ''B'']),
                (''dataset_name'', PList [PStr ''X'']),
                (''usecase'', PStr ''precommit'')]] \<and>
   selected PNone [(''model_name'', PList [PStr ''A'', PStr ''B'']),
                   (''dataset_name'', PList [PStr ''X'']),
                   (''usecase'', PStr ''precommit'')] \<and>
   fst ` set (short_test_parameters_names_for_generating_id example_helper)
     \<subseteq> fst ` set [(''model_name'', PList [PStr ''A'', PStr ''B'']),
                (''dataset_name'', PList [PStr ''X'']),
                (''usecase'', PStr ''precommit'')]
        \<union> {''test_stage'', ''model_name'', ''dataset_name''}
        \<union> fst ` set (default_test_parameters example_helper) \<and>
   get_list_of_test_stages (test_case_class example_helper) = [''train'', ''eval''] \<and>
   (\<exists>r1 r2 r3 r4 i1 i2 i3 i4.
      fst (get_list_of_tests (PStr ''unset'') example_helper PNone)
        = Inr ([''test_parameters''], [r1, r2, r3, r4], [i1, i2, i3, i4]) \<and>
      map test_triple [r1, r2, r3, r4]
        = [(PStr ''A'', PStr ''X'', PStr ''train''), (PStr ''A'', PStr ''X'', PStr ''eval''),
           (PStr ''B'', PStr ''X'', PStr ''train''), (PStr ''B'', PStr ''X'', PStr ''eval'')]) \<and>
   fst (get_list_of_tests (PStr ''unset'') example_helper PNone) =
     Inr ([''test_parameters''],
       [[(''model_name'', PStr ''A''), (''dataset_name'', PStr ''X''),
         (''usecase'', PStr ''precommit''), (''test_stage'', PStr ''train''),
         (''batch_size'', PInt 2)],
        [(''model_name'', PStr ''A''), (''dataset_name'', PStr ''X''),
         (''usecase'', PStr ''precommit''), (''test_stage'', PStr ''eval''),
         (''batch_size'', PInt 2)],
        [(''model_name'', PStr ''B''), (''dataset_name'', PStr ''X''),
         (''usecase'', PStr ''precommit''), (''test_stage'', PStr ''train''),
         (''batch_size'', PInt 2)],
        [(''model_name'', PStr ''B''), (''dataset_name'', PStr ''X''),
         (''usecase'', PStr ''precommit''), (''test_stage'', PStr ''eval''),
         (''batch_size'', PInt 2)]],
       [''ACTION-train,model-A,dataset-X,usecase-precommit'',
        ''ACTION-eval,model-A,dataset-X,usecase-precommit'',
        ''ACTION-train,model-B,dataset-X,usecase-precommit'',
        ''ACTION-eval,model-B,dataset-X,usecase-precommit''])"
proof -
  let ?el = "[(''model_name'', PList [PStr ''A'', PStr ''B'']),
              (''dataset_name'', PList [PStr ''X'']),
              (''usecase'', PStr ''precommit'')]"
  have a: "test_bunches example_helper = map Dict [?el]"
    by (simp add: example_helper_def example_parameters_def)
  have s: "selected PNone ?el" by (simp add: selected_def)
  have k: "fst ` set (short_test_parameters_names_for_generating_id example_helper)
     \<subseteq> fst ` set ?el \<union> {''test_stage'', ''model_name'', ''dataset_name''}
        \<union> fst ` set (default_test_parameters example_helper)"
    by (simp add: example_helper_def example_parameters_def)
  then have b: "\<forall>el \<in> set [?el]. selected PNone el \<longrightarrow>
     fst ` set (short_test_parameters_names_for_generating_id example_helper)
     \<subseteq> fst ` set el \<union> {''test_stage'', ''model_name'', ''dataset_name''}
        \<union> fst ` set (default_test_parameters example_helper)" by simp
  have st: "get_list_of_test_stages (test_case_class example_helper) = [''train'', ''eval'']"
    by (simp add: example_helper_def example_class_def)
  have ex: "[?el] = [?el] \<and> selected PNone ?el \<and>
      dict_get ?el ''model_name'' = PList [PStr ''A'', PStr ''B''] \<and>
      dict_get ?el ''dataset_name'' = PList [PStr ''X''] \<and>
      get_list_of_test_stages (test_case_class example_helper) = [''train'', ''eval''] \<and>
      {PStr ''A'', PStr ''B'', PStr ''X'', PStr ''train'', PStr ''eval''}
        \<inter> {PNone, PStr ''unset''} = {}"
    using s st by (simp add: dict_get_def)
  from get_list_of_tests_order[OF a b, of "PStr ''unset''" ?el "PStr ''A''" "PStr ''B''"
      "PStr ''X''" "''train''" "''eval''"] ex
  have t: "\<exists>r1 r2 r3 r4 i1 i2 i3 i4.
      fst (get_list_of_tests (PStr ''unset'') example_helper PNone)
        = Inr ([''test_parameters''], [r1, r2, r3, r4], [i1, i2, i3, i4]) \<and>
      map test_triple [r1, r2, r3, r4]
        = [(PStr ''A'', PStr ''X'', PStr ''train''), (PStr ''A'', PStr ''X'', PStr ''eval''),
           (PStr ''B'', PStr ''X'', PStr ''train''), (PStr ''B'', PStr ''X'', PStr ''eval'')]"
    by blast
  have e: "fst (get_list_of_tests (PStr ''unset'') example_helper PNone) =
     Inr ([''test_parameters''],
       [[(''model_name'', PStr ''A''), (''dataset_name'', PStr ''X''),
         (''usecase'', PStr ''precommit''), (''test_stage'', PStr ''train''),
         (''batch_size'', PInt 2)],
        [(''model_name'', PStr ''A''), (''dataset_name'', PStr ''X''),
         (''usecase'', PStr ''precommit''), (''test_stage'', PStr ''eval''),
         (''batch_size'', PInt 2)],
        [(''model_name'', PStr ''B''), (''dataset_name'', PStr ''X''),
         (''usecase'', PStr ''precommit''), (''test_stage'', PStr ''train''),
         (''batch_size'', PInt 2)],
        [(''model_name'', PStr ''B''), (''dataset_name'', PStr ''X''),
         (''usecase'', PStr ''precommit''), (''test_stage'', PStr ''eval''),
         (''batch_size'', PInt 2)]],
       [''ACTION-train,model-A,dataset-X,usecase-precommit'',
        ''ACTION-eval,model-A,dataset-X,usecase-precommit'',
        ''ACTION-train,model-B,dataset-X,usecase-precommit'',
        ''ACTION-eval,model-B,dataset-X,usecase-precommit''])"
    by (simp add: ev_defs)
  from a s k st t e show ?thesis by (intro conjI)
qed

text \<open>
  The claim as the specification words it fails on a bunch that holds the models
  \<open>["A", "B"]\<close> and the dataset \<open>["X"]\<close> and no \<open>usecase\<close>, with the stages
  \<open>["train", "eval"]\<close>: \<open>usecase\<close> is a key of the id-naming dict and is not
  among the defaults, so the id of the first test raises \<open>KeyError\<close> and the call
  returns no test at all.
\<close>

theorem get_list_of_tests_missing_id_key_counterexample:
  "test_bunches models_and_dataset_only =
     [Dict [(''model_name'', PList [PStr ''A'', PStr ''B'']),
            (''dataset_name'', PList [PStr ''X''])]] \<and>
   get_list_of_test_stages (test_case_class models_and_dataset_only) = [''train'', ''eval''] \<and>
   (''usecase'', ''usecase'')
     \<in> set (short_test_parameters_names_for_generating_id models_and_dataset_only) \<and>
   ''usecase'' \<notin> fst ` set (default_test_parameters models_and_dataset_only) \<and>
   fst (get_list_of_tests (PStr ''unset'') models_and_dataset_only PNone)
     = Inl (KeyError ''usecase'') \<and>
   argvalues_of (get_list_of_tests (PStr ''unset'') models_and_dataset_only PNone) = []"
  by (simp add: ev_defs models_and_dataset_only_def argvalues_of_def)

lemma ev_empty_models:
  "fst (get_list_of_tests (PStr ''unset'') empty_models PNone) =
     Inr ([''test_parameters''],
       [[(''model_name'', PStr ''A''), (''dataset_name'', PStr ''X''),
         (''usecase'', PStr ''precommit''), (''test_stage'', PStr ''train''),
         (''batch_size'', PInt 2)],
        [(''model_name'', PStr ''A''), (''dataset_name'', PStr ''X''),
         (''usecase'', PStr ''precommit''), (''test_stage'', PStr ''eval''),
         (''batch_size'', PInt 2)]],
       [''ACTION-train,model-A,dataset-X,usecase-precommit'',
        ''ACTION-eval,model-A,dataset-X,usecase-precommit''])"
  by (simp add: ev_defs empty_models_def)

text \<open>
  The claim as the specification words it fails on an empty list of models: the call
  raises nothing and returns the tests of the other bunch.
\<close>

theorem get_list_of_tests_empty_names_counterexample:
  "test_bunches empty_models =
     [Dict [(''model_name'', PStr ''A''), (''dataset_name'', PStr ''X''),
            (''usecase'', PStr ''precommit'')],
      Dict [(''model_name'', PList []), (''dataset_name'', PStr ''X''),
            (''usecase'', PStr ''precommit'')]] \<and>
   as_names (dict_get [(''model_name'', PList []), (''dataset_name'', PStr ''X''),
                       (''usecase'', PStr ''precommit'')] ''model_name'') = [] \<and>
   fst (get_list_of_tests (PStr ''unset'') empty_models PNone) =
     Inr ([''test_parameters''],
       [[(''model_name'', PStr ''A''), (''dataset_name'', PStr ''X''),
         (''usecase'', PStr ''precommit''), (''test_stage'', PStr ''train''),
         (''batch_size'', PInt 2)],
        [(''model_name'', PStr ''A''), (''dataset_name'', PStr ''X''),
         (''usecase'', PStr ''precommit''), (''test_stage'', PStr ''eval''),
         (''batch_size'', PInt 2)]],
       [''ACTION-train,model-A,dataset-X,usecase-precommit'',
        ''ACTION-eval,model-A,dataset-X,usecase-precommit''])"
  using ev_empty_models by (simp add: empty_models_def as_names_def dict_get_def)

theorem get_list_of_tests_errors_witness:
  "\<not> list_all is_dict (test_bunches (example_helper\<lparr>test_bunches := [NotADict (PStr ''A'')]\<rparr>)) \<and>
   get_list_of_tests (PStr ''unset'') (example_helper\<lparr>test_bunches := [NotADict (PStr ''A'')]\<rparr>) PNone
     = (Inl AssertionError, example_helper\<lparr>test_bunches := [NotADict (PStr ''A'')]\<rparr>) \<and>
   test_bunches empty_models =
     map Dict ([[(''model_name'', PStr ''A''), (''dataset_name'', PStr ''X''),
                 (''usecase'', PStr ''precommit'')]]
               @ [(''model_name'', PList []), (''dataset_name'', PStr ''X''),
                  (''usecase'', PStr ''precommit'')] # []) \<and>
   as_names (dict_get [(''model_name'', PList []), (''dataset_name'', PStr ''X''),
                       (''usecase'', PStr ''precommit'')] ''model_name'') = [] \<and>
   fst (get_list_of_tests (PStr ''unset'') empty_models PNone) =
   fst (get_list_of_tests (PStr ''unset'')
          (empty_models\<lparr>test_bunches :=
             map Dict ([[(''model_name'', PStr ''A''), (''dataset_name'', PStr ''X''),
                         (''usecase'', PStr ''precommit'')]] @ [])\<rparr>) PNone)"
proof -
  let ?h = "example_helper\<lparr>test_bunches := [NotADict (PStr ''A'')]\<rparr>"
  let ?e = "[(''model_name'', PList []), (''dataset_name'', PStr ''X''),
             (''usecase'', PStr ''precommit'')]"
  let ?g = "[(''model_name'', PStr ''A''), (''dataset_name'', PStr ''X''),
             (''usecase'', PStr ''precommit'')]"
  have a: "\<not> list_all is_dict (test_bunches ?h)" by simp
  have b: "test_bunches empty_models = map Dict ([?g] @ ?e # [])"
    by (simp add: empty_models_def)
  have c: "as_names (dict_get ?e ''model_name'') = []"
    by (simp add: as_names_def dict_get_def)
  note t1 = get_list_of_tests_errors[of ?h "PStr ''unset''" PNone "[]" "[]" "[]", THEN conjunct1]
  note t2 = get_list_of_tests_errors[of empty_models "PStr ''unset''" PNone "[?g]" ?e "[]",
      THEN conjunct2]
  from t1 a have d: "get_list_of_tests (PStr ''unset'') ?h PNone = (Inl AssertionError, ?h)"
    by blast
  from t2 b c have e: "fst (get_list_of_tests (PStr ''unset'') empty_models PNone) =
     fst (get_list_of_tests (PStr ''unset'')
          (empty_models\<lparr>test_bunches := map Dict ([?g] @ [])\<rparr>) PNone)"
    by blast
  from a b c d e show ?thesis by (intro conjI)
qed

lemma ev_no_usecase:
  "fst (get_list_of_tests (PStr ''unset'') no_usecase PNone) =
     Inr ([''test_parameters''],
       [[(''model_name'', PStr ''A''), (''dataset_name'', PStr ''X''),
         (''test_stage'', PStr ''train''), (''usecase'', PStr ''precommit'')],
        [(''model_name'', PStr ''A''), (''dataset_name'', PStr ''X''),
         (''test_stage'', PStr ''eval''), (''usecase'', PStr ''precommit'')]],
       [''ACTION-train,model-A,dataset-X,usecase-precommit'',
        ''ACTION-eval,model-A,dataset-X,usecase-precommit''])"
  by (simp add: ev_defs no_usecase_def)

lemma no_usecase_filtered:
  assumes "u \<noteq> PNone"
  shows "argvalues_of (get_list_of_tests (PStr ''unset'') no_usecase u) = []"
proof -
  have b: "test_bunches no_usecase
      = map Dict [[(''model_name'', PStr ''A''), (''dataset_name'', PStr ''X'')]]"
    by (simp add: no_usecase_def)
  show ?thesis
    using assms
    by (auto simp: argvalues_of_def fst_get_list_of_tests[OF b] all_test_parameters_def
       selected_def dict_get_def)
qed

text \<open>
  The claim as the specification words it fails on a bunch without \<open>usecase\<close>: the
  call without filter returns its two tests (the default gives them the usecase
  \<open>precommit\<close>), and no call with a filter returns any of them, the call with the
  filter \<open>precommit\<close> included.
\<close>

theorem get_list_of_tests_union_counterexample:
  "test_bunches no_usecase = [Dict [(''model_name'', PStr ''A''), (''dataset_name'', PStr ''X'')]] \<and>
   default_test_parameters no_usecase = [(''usecase'', PStr ''precommit'')] \<and>
   argvalues_of (get_list_of_tests (PStr ''unset'') no_usecase PNone) =
       [[(''model_name'', PStr ''A''), (''dataset_name'', PStr ''X''),
         (''test_stage'', PStr ''train''), (''usecase'', PStr ''precommit'')],
        [(''model_name'', PStr ''A''), (''dataset_name'', PStr ''X''),
         (''test_stage'', PStr ''eval''), (''usecase'', PStr ''precommit'')]] \<and>
   argvalues_of (get_list_of_tests (PStr ''unset'') no_usecase (PStr ''precommit'')) = [] \<and>
   (\<Union>u \<in> {u. u \<noteq> PNone}. set (argvalues_of (get_list_of_tests (PStr ''unset'') no_usecase u)))
     = {} \<and>
   set (argvalues_of (get_list_of_tests (PStr ''unset'') no_usecase PNone)) \<noteq>
   (\<Union>u \<in> {u. u \<noteq> PNone}. set (argvalues_of (get_list_of_tests (PStr ''unset'') no_usecase u)))"
proof -
  have u: "(\<Union>u \<in> {u. u \<noteq> PNone}.
      set (argvalues_of (get_list_of_tests (PStr ''unset'') no_usecase u))) = {}"
    by (simp add: no_usecase_filtered)
  have p: "argvalues_of (get_list_of_tests (PStr ''unset'') no_usecase (PStr ''precommit'')) = []"
    by (simp add: no_usecase_filtered)
  have n: "argvalues_of (get_list_of_tests (PStr ''unset'') no_usecase PNone) =
       [[(''model_name'', PStr ''A''), (''dataset_name'', PStr ''X''),
         (''test_stage'', PStr ''train''), (''usecase'', PStr ''precommit'')],
        [(''model_name'', PStr ''A''), (''dataset_name'', PStr ''X''),
         (''test_stage'', PStr ''eval''), (''usecase'', PStr ''precommit'')]]"
    by (simp add: argvalues_of_def ev_no_usecase)
  show ?thesis unfolding u n p by (simp add: no_usecase_def)
qed

lemma ev_two_usecases:
  "fst (get_list_of_tests (PStr ''unset'') two_usecases PNone) =
     Inr ([''test_parameters''],
       [[(''model_name'', PStr ''A''), (''dataset_name'', PStr ''X''),
         (''usecase'', PStr ''precommit''), (''test_stage'', PStr ''train''),
         (''batch_size'', PInt 2)],
        [(''model_name'', PStr ''A''), (''dataset_name'', PStr ''X''),
         (''usecase'', PStr ''precommit''), (''test_stage'', PStr ''eval''),
         (''batch_size'', PInt 2)],
        [(''model_name'', PStr ''B''), (''dataset_name'', PStr ''X''),
         (''usecase'', PStr ''nightly''), (''test_stage'', PStr ''train''),
         (''batch_size'', PInt 2)],
        [(''model_name'', PStr ''B''), (''dataset_name'', PStr ''X''),
         (''usecase'', PStr ''nightly''), (''test_stage'', PStr ''eval''),
         (''batch_size'', PInt 2)]],
       [''ACTION-train,model-A,dataset-X,usecase-precommit'',
        ''ACTION-eval,model-A,dataset-X,usecase-precommit'',
        ''ACTION-train,model-B,dataset-X,usecase-nightly'',
        ''ACTION-eval,model-B,dataset-X,usecase-nightly''])"
  by (simp add: ev_defs two_usecases_def)

lemma ev_two_usecases_nightly:
  "fst (get_list_of_tests (PStr ''unset'') two_usecases (PStr ''nightly'')) =
     Inr ([''test_parameters''],
       [[(''model_name'', PStr ''B''), (''dataset_name'', PStr ''X''),
         (''usecase'', PStr ''nightly''), (''test_stage'', PStr ''train''),
         (''batch_size'', PInt 2)],
        [(''model_name'', PStr ''B''), (''dataset_name'', PStr ''X''),
         (''usecase'', PStr ''nightly''), (''test_stage'', PStr ''eval''),
         (''batch_size'', PInt 2)]],
       [''ACTION-train,model-B,dataset-X,usecase-nightly'',
        ''ACTION-eval,model-B,dataset-X,usecase-nightly''])"
  by (simp add: ev_defs two_usecases_def)

theorem get_list_of_tests_usecase_witness:
  "test_bunches two_usecases =
     map Dict [[(''model_name'', PStr ''A''), (''dataset_name'', PStr ''X''),
                (''usecase'', PStr ''precommit'')],
               [(''model_name'', PStr ''B''), (''dataset_name'', PStr ''X''),
                (''usecase'', PStr ''nightly'')]] \<and>
   PStr ''nightly'' \<noteq> PNone \<and>
   fst (get_list_of_tests (PStr ''unset'') two_usecases (PStr ''nightly'')) =
   fst (get_list_of_tests (PStr ''unset'')
          (two_usecases\<lparr>test_bunches :=
             [Dict [(''model_name'', PStr ''B''), (''dataset_name'', PStr ''X''),
                    (''usecase'', PStr ''nightly'')]]\<rparr>) PNone) \<and>
   fst (get_list_of_tests (PStr ''unset'') two_usecases (PStr ''nightly'')) =
     Inr ([''test_parameters''],
       [[(''model_name'', PStr ''B''), (''dataset_name'', PStr ''X''),
         (''usecase'', PStr ''nightly''), (''test_stage'', PStr ''train''),
         (''batch_size'', PInt 2)],
        [(''model_name'', PStr ''B''), (''dataset_name'', PStr ''X''),
         (''usecase'', PStr ''nightly''), (''test_stage'', PStr ''eval''),
         (''batch_size'', PInt 2)]],
       [''ACTION-train,model-B,dataset-X,usecase-nightly'',
        ''ACTION-eval,model-B,dataset-X,usecase-nightly'']) \<and>
   set (argvalues_of (get_list_of_tests (PStr ''unset'') two_usecases PNone)) =
     (\<Union>u \<in> {u. u \<noteq> PNone}.
         set (argvalues_of (get_list_of_tests (PStr ''unset'') two_usecases u))) \<union>
     set (argvalues_of (get_list_of_tests (PStr ''unset'')
            (two_usecases\<lparr>test_bunches := []\<rparr>) PNone))"
proof -
  let ?b1 = "[(''model_name'', PStr ''A''), (''dataset_name'', PStr ''X''),
              (''usecase'', PStr ''precommit'')]"
  let ?b2 = "[(''model_name'', PStr ''B''), (''dataset_name'', PStr ''X''),
              (''usecase'', PStr ''nightly'')]"
  have a: "test_bunches two_usecases = map Dict [?b1, ?b2]"
    by (simp add: two_usecases_def)
  have n: "PStr ''nightly'' \<noteq> PNone" by simp
  have f1: "filter (\<lambda>el. dict_get el ''usecase'' = PStr ''nightly'') [?b1, ?b2] = [?b2]"
    by (simp add: dict_get_def)
  have f2: "filter (\<lambda>el. dict_get el ''usecase'' = PNone) [?b1, ?b2] = []"
    by (simp add: dict_get_def)
  note t = get_list_of_tests_usecase[OF a, of "PStr ''nightly''" "PStr ''unset''"]
  from t n have c1: "fst (get_list_of_tests (PStr ''unset'') two_usecases (PStr ''nightly'')) =
     fst (get_list_of_tests (PStr ''unset'') (two_usecases\<lparr>test_bunches := [Dict ?b2]\<rparr>) PNone)"
    unfolding f1 by simp
  from t ev_two_usecases
  have c2: "set (argvalues_of (get_list_of_tests (PStr ''unset'') two_usecases PNone)) =
     (\<Union>u \<in> {u. u \<noteq> PNone}.
         set (argvalues_of (get_list_of_tests (PStr ''unset'') two_usecases u))) \<union>
     set (argvalues_of (get_list_of_tests (PStr ''unset'')
            (two_usecases\<lparr>test_bunches := []\<rparr>) PNone))"
    unfolding f2 by (simp add: argvalues_of_def)
  from a n c1 ev_two_usecases_nightly c2 show ?thesis by (intro conjI)
qed

section \<open>Facts about the cache over several calls\<close>

lemma get_test_case_hit:
  assumes "params_defining_cache tp (test_parameters_defining_test_case_behavior self) [] = Inr k"
      and "has_same_params (cache self) k"
  shows "get_test_case self tp f = (Inr (cached_value (cache self)), self)"
  using assms by (simp add: get_test_case_def Cache_get_def)

lemma get_test_case_miss:
  assumes "params_defining_cache tp (test_parameters_defining_test_case_behavior self) [] = Inr k"
      and "\<not> has_same_params (cache self) k"
      and "init_raises (test_case_class self) (constructor_calls self) f = None"
  shows "get_test_case self tp f =
     (Inr (Some (TestCase (constructor_calls self) f)),
      self\<lparr>constructor_calls := Suc (constructor_calls self),
           cache := \<lparr>cache_parameters = k,
                     cached_value = Some (TestCase (constructor_calls self) f)\<rparr>\<rparr>)"
  using assms by (simp add: get_test_case_def Cache_get_def Cache_set_def Let_def)

lemma params_defining_cache_keys:
  "params_defining_cache tp ks acc = Inr r \<Longrightarrow> params_defining_cache tp' ks acc' = Inr r' \<Longrightarrow>
   map fst acc = map fst acc' \<Longrightarrow> map fst r = map fst r'"
proof (induction ks arbitrary: acc acc')
  case Nil
  then show ?case by simp
next
  case (Cons k ks)
  from Cons.prems(1) obtain v where v: "dict_getitem tp k = Inr v"
    and r: "params_defining_cache tp ks (AList.update k v acc) = Inr r"
    by (auto split: sum.splits)
  from Cons.prems(2) obtain v' where v': "dict_getitem tp' k = Inr v'"
    and r': "params_defining_cache tp' ks (AList.update k v' acc') = Inr r'"
    by (auto split: sum.splits)
  have "map fst (AList.update k v acc) = map fst (AList.update k v' acc')"
    using Cons.prems(3) by (simp add: update_keys)
  from Cons.IH[OF r r' this] show ?case .
qed

lemma params_defining_cache_distinct:
  "params_defining_cache tp ks acc = Inr r \<Longrightarrow> distinct (map fst acc) \<Longrightarrow> distinct (map fst r)"
proof (induction ks arbitrary: acc)
  case Nil
  then show ?case by simp
next
  case (Cons k ks)
  from Cons.prems(1) obtain v where
    r: "params_defining_cache tp ks (AList.update k v acc) = Inr r"
    by (auto split: sum.splits)
  from Cons.IH[OF r] Cons.prems(2) show ?case by (simp add: distinct_update)
qed

lemma dict_eq_refl: "distinct (map fst a) \<Longrightarrow> dict_eq a a"
  by (auto simp: dict_eq_def list_all_iff)

lemma dict_eq_same_keys:
  "map fst a = map fst b \<Longrightarrow> distinct (map fst a) \<Longrightarrow> dict_eq a b \<Longrightarrow> a = b"
proof (induction a arbitrary: b)
  case Nil
  then show ?case by simp
next
  case (Cons p a)
  from Cons.prems(1) obtain q b' where b: "b = q # b'" and pq: "fst p = fst q"
    and keys: "map fst a = map fst b'" by (cases b) auto
  from Cons.prems(3) have "map_of b (fst p) = Some (snd p)"
    by (auto simp: dict_eq_def)
  then have "snd q = snd p" using b pq by simp
  then have "p = q" using pq by (simp add: prod_eq_iff)
  have "dict_eq a b'"
    unfolding dict_eq_def list_all_iff
  proof (intro conjI ballI)
    show "length a = length b'" using keys by (metis length_map)
  next
    fix x assume x: "x \<in> set a"
    obtain k v where kv: "x = (k, v)" by (cases x)
    from Cons.prems(3) x kv have "map_of b k = Some v"
      by (auto simp: dict_eq_def list_all_iff)
    moreover have "k \<noteq> fst p"
    proof -
      from x kv have "k \<in> fst ` set a" by (simp add: rev_image_eqI)
      moreover from Cons.prems(2) have "fst p \<notin> fst ` set a" by simp
      ultimately show ?thesis by blast
    qed
    ultimately have "map_of b' k = Some v" using b pq by (auto split: if_splits)
    then show "case x of (k, v) \<Rightarrow> map_of b' k = Some v" by (simp add: kv)
  qed
  from Cons.IH[OF keys _ this] Cons.prems(2) have "a = b'" by simp
  with \<open>p = q\<close> b show ?case by simp
qed

lemma dict_eq_Nil_iff: "dict_eq [] b \<longleftrightarrow> b = []"
  by (auto simp: dict_eq_def)

lemma derived_keys_dict_eq:
  assumes "params_defining_cache tp ks [] = Inr k"
      and "params_defining_cache tp' ks [] = Inr k'"
  shows "dict_eq k k' \<longleftrightarrow> k = k'"
proof
  assume "dict_eq k k'"
  with dict_eq_same_keys[OF params_defining_cache_keys[OF assms] 
       params_defining_cache_distinct[OF assms(1)]]
  show "k = k'" by simp
next
  assume "k = k'"
  then show "dict_eq k k'"
    using dict_eq_refl[OF params_defining_cache_distinct[OF assms(1)]] by simp
qed

text \<open>
  C1, as the code has it. Four calls of \<open>get_test_case\<close> whose parameters give the
  keys \<open>k1\<close>, \<open>k1\<close>, \<open>k2\<close>, \<open>k1\<close> with \<open>k1\<close> and \<open>k2\<close> different, on a
  new helper or on any helper whose cache does not hold \<open>k1\<close>, the constructor raising
  in none of them: the constructor is called three times, in the first, the third and the
  fourth call. The second call returns the instance of the first and calls no
  constructor; the fourth call builds a new instance, which is not the one of the first
  call, since the third call overwrote the only slot of the cache.
\<close>

theorem get_test_case_last_key_only:
  assumes "params_defining_cache tp1 (test_parameters_defining_test_case_behavior self) [] = Inr k1"
      and "params_defining_cache tp2 (test_parameters_defining_test_case_behavior self) [] = Inr k1"
      and "params_defining_cache tp3 (test_parameters_defining_test_case_behavior self) [] = Inr k2"
      and "params_defining_cache tp4 (test_parameters_defining_test_case_behavior self) [] = Inr k1"
      and "k1 \<noteq> k2"
      and "cache self = Cache_init \<or> \<not> has_same_params (cache self) k1"
      and "n = constructor_calls self"
      and "init_raises (test_case_class self) n f1 = None"
      and "init_raises (test_case_class self) (n + 1) f3 = None"
      and "init_raises (test_case_class self) (n + 2) f4 = None"
  shows "get_test_cases self [(tp1, f1), (tp2, f2), (tp3, f3), (tp4, f4)] =
           [(Inr (Some (TestCase n f1)), n + 1),
            (Inr (Some (TestCase n f1)), n + 1),
            (Inr (Some (TestCase (n + 1) f3)), n + 2),
            (Inr (Some (TestCase (n + 2) f4)), n + 3)]"
proof -
  let ?ks = "test_parameters_defining_test_case_behavior self"
  have k1_ne: "k1 \<noteq> []"
  proof
    assume "k1 = []"
    with params_defining_cache_keys[OF assms(1) assms(3)] have "k2 = []" by simp
    with \<open>k1 = []\<close> assms(5) show False by simp
  qed
  have miss0: "\<not> has_same_params (cache self) k1"
    using assms(6) k1_ne by (auto simp: has_same_params_def Cache_init_def dict_eq_Nil_iff)
  let ?s1 = "self\<lparr>constructor_calls := Suc n,
       cache := \<lparr>cache_parameters = k1, cached_value = Some (TestCase n f1)\<rparr>\<rparr>"
  let ?s3 = "?s1\<lparr>constructor_calls := Suc (Suc n),
       cache := \<lparr>cache_parameters = k2, cached_value = Some (TestCase (Suc n) f3)\<rparr>\<rparr>"
  let ?s4 = "?s3\<lparr>constructor_calls := Suc (Suc (Suc n)),
       cache := \<lparr>cache_parameters = k1, cached_value = Some (TestCase (Suc (Suc n)) f4)\<rparr>\<rparr>"
  have c1: "get_test_case self tp1 f1 = (Inr (Some (TestCase n f1)), ?s1)"
    using get_test_case_miss[OF assms(1) miss0] assms(7,8) by simp
  have hit: "has_same_params (cache ?s1) k1"
    using derived_keys_dict_eq[OF assms(1) assms(1)] by (simp add: has_same_params_def)
  have c2: "get_test_case ?s1 tp2 f2 = (Inr (Some (TestCase n f1)), ?s1)"
    using get_test_case_hit[of tp2 ?s1 k1 f2] assms(2) hit by simp
  have miss3: "\<not> has_same_params (cache ?s1) k2"
    using derived_keys_dict_eq[OF assms(1) assms(3)] assms(5) by (simp add: has_same_params_def)
  have c3: "get_test_case ?s1 tp3 f3 = (Inr (Some (TestCase (Suc n) f3)), ?s3)"
    using get_test_case_miss[of tp3 ?s1 k2 f3] assms(3) miss3 assms(9) by simp
  have miss4: "\<not> has_same_params (cache ?s3) k1"
    using derived_keys_dict_eq[OF assms(3) assms(1)] assms(5) by (auto simp: has_same_params_def)
  have c4: "get_test_case ?s3 tp4 f4 = (Inr (Some (TestCase (Suc (Suc n)) f4)), ?s4)"
    using get_test_case_miss[of tp4 ?s3 k1 f4] assms(4) miss4 assms(10) by simp
  have "get_test_cases self [(tp1, f1), (tp2, f2), (tp3, f3), (tp4, f4)] =
           [(Inr (Some (TestCase n f1)), constructor_calls ?s1),
            (Inr (Some (TestCase n f1)), constructor_calls ?s1),
            (Inr (Some (TestCase (Suc n) f3)), constructor_calls ?s3),
            (Inr (Some (TestCase (Suc (Suc n)) f4)), constructor_calls ?s4)]"
    by (simp only: get_test_cases.simps Let_def c1 c2 c3 c4 prod.case)
  then show ?thesis by simp
qed

theorem get_test_case_last_key_only_witness:
  "params_defining_cache
     [(''model_name'', PStr ''A''), (''dataset_name'', PStr ''X''), (''test_stage'', PStr ''train'')]
     (test_parameters_defining_test_case_behavior plain_helper) []
     = Inr [(''model_name'', PStr ''A''), (''dataset_name'', PStr ''X'')] \<and>
   params_defining_cache
     [(''model_name'', PStr ''A''), (''dataset_name'', PStr ''X''), (''test_stage'', PStr ''eval'')]
     (test_parameters_defining_test_case_behavior plain_helper) []
     = Inr [(''model_name'', PStr ''A''), (''dataset_name'', PStr ''X'')] \<and>
   params_defining_cache
     [(''model_name'', PStr ''B''), (''dataset_name'', PStr ''X''), (''test_stage'', PStr ''train'')]
     (test_parameters_defining_test_case_behavior plain_helper) []
     = Inr [(''model_name'', PStr ''B''), (''dataset_name'', PStr ''X'')] \<and>
   cache plain_helper = Cache_init \<and>
   constructor_calls plain_helper = 0 \<and>
   get_test_cases plain_helper
     [([(''model_name'', PStr ''A''), (''dataset_name'', PStr ''X''), (''test_stage'', PStr ''train'')], ()),
      ([(''model_name'', PStr ''A''), (''dataset_name'', PStr ''X''), (''test_stage'', PStr ''eval'')], ()),
      ([(''model_name'', PStr ''B''), (''dataset_name'', PStr ''X''), (''test_stage'', PStr ''train'')], ()),
      ([(''model_name'', PStr ''A''), (''dataset_name'', PStr ''X''), (''test_stage'', PStr ''train'')], ())]
     = [(Inr (Some (TestCase 0 ())), 1), (Inr (Some (TestCase 0 ())), 1),
        (Inr (Some (TestCase 1 ())), 2), (Inr (Some (TestCase 2 ())), 3)]"
proof -
  let ?a1 = "[(''model_name'', PStr ''A''), (''dataset_name'', PStr ''X''), (''test_stage'', PStr ''train'')]"
  let ?a2 = "[(''model_name'', PStr ''A''), (''dataset_name'', PStr ''X''), (''test_stage'', PStr ''eval'')]"
  let ?b = "[(''model_name'', PStr ''B''), (''dataset_name'', PStr ''X''), (''test_stage'', PStr ''train'')]"
  let ?k1 = "[(''model_name'', PStr ''A''), (''dataset_name'', PStr ''X'')]"
  let ?k2 = "[(''model_name'', PStr ''B''), (''dataset_name'', PStr ''X'')]"
  let ?ks = "test_parameters_defining_test_case_behavior plain_helper"
  have d1: "params_defining_cache ?a1 ?ks [] = Inr ?k1"
    by (simp add: plain_helper_def example_helper_def dict_getitem_def)
  have d2: "params_defining_cache ?a2 ?ks [] = Inr ?k1"
    by (simp add: plain_helper_def example_helper_def dict_getitem_def)
  have d3: "params_defining_cache ?b ?ks [] = Inr ?k2"
    by (simp add: plain_helper_def example_helper_def dict_getitem_def)
  have ne: "?k1 \<noteq> ?k2" by simp
  have c: "cache plain_helper = Cache_init" by (simp add: plain_helper_def example_helper_def)
  then have c': "cache plain_helper = Cache_init \<or> \<not> has_same_params (cache plain_helper) ?k1"
    by simp
  have n: "0 = constructor_calls plain_helper" by (simp add: plain_helper_def example_helper_def)
  have r: "init_raises (test_case_class plain_helper) 0 () = None"
    "init_raises (test_case_class plain_helper) (0 + 1) () = None"
    "init_raises (test_case_class plain_helper) (0 + 2) () = None"
    by (simp_all add: plain_helper_def)
  from get_test_case_last_key_only[OF d1 d2 d3 d1 ne c' n r, of "()"]
  have "get_test_cases plain_helper [(?a1, ()), (?a2, ()), (?b, ()), (?a1, ())]
     = [(Inr (Some (TestCase 0 ())), 1), (Inr (Some (TestCase 0 ())), 1),
        (Inr (Some (TestCase 1 ())), 2), (Inr (Some (TestCase 2 ())), 3)]" by simp
  with d1 d2 d3 c n show ?thesis by simp
qed

text \<open>
  The claim as the specification words it counts two constructor calls. On the example
  the count of constructor calls after the four calls is 1, 1, 2 and 3: the fourth call
  is the third construction.
\<close>

theorem get_test_case_two_constructions_counterexample:
  "params_defining_cache
     [(''model_name'', PStr ''A''), (''dataset_name'', PStr ''X''), (''test_stage'', PStr ''train'')]
     (test_parameters_defining_test_case_behavior plain_helper) []
     = Inr [(''model_name'', PStr ''A''), (''dataset_name'', PStr ''X'')] \<and>
   params_defining_cache
     [(''model_name'', PStr ''A''), (''dataset_name'', PStr ''X''), (''test_stage'', PStr ''eval'')]
     (test_parameters_defining_test_case_behavior plain_helper) []
     = Inr [(''model_name'', PStr ''A''), (''dataset_name'', PStr ''X'')] \<and>
   params_defining_cache
     [(''model_name'', PStr ''B''), (''dataset_name'', PStr ''X''), (''test_stage'', PStr ''train'')]
     (test_parameters_defining_test_case_behavior plain_helper) []
     = Inr [(''model_name'', PStr ''B''), (''dataset_name'', PStr ''X'')] \<and>
   constructor_calls plain_helper = 0 \<and>
   map snd (get_test_cases plain_helper
     [([(''model_name'', PStr ''A''), (''dataset_name'', PStr ''X''), (''test_stage'', PStr ''train'')], ()),
      ([(''model_name'', PStr ''A''), (''dataset_name'', PStr ''X''), (''test_stage'', PStr ''eval'')], ()),
      ([(''model_name'', PStr ''B''), (''dataset_name'', PStr ''X''), (''test_stage'', PStr ''train'')], ()),
      ([(''model_name'', PStr ''A''), (''dataset_name'', PStr ''X''), (''test_stage'', PStr ''train'')], ())])
     = [1, 1, 2, 3]"
  by (simp add: plain_helper_def example_helper_def dict_getitem_def get_test_case_def
        has_same_params_def dict_eq_def Cache_init_def Cache_set_def Cache_get_def Let_def)

section \<open>Facts about the ids\<close>

lemma id_parts_present:
  "fst ` set names \<subseteq> fst ` set r \<Longrightarrow> id_parts names r = Inr (rendered_parts names r)"
proof (induction names)
  case Nil
  show ?case by (simp add: rendered_parts_def)
next
  case (Cons p names)
  obtain par short where p: "p = (par, short)" by (cases p)
  from Cons.prems p have "par \<in> fst ` set r" by simp
  then have "map_of r par \<noteq> None" by (simp add: map_of_eq_None_iff)
  then obtain v where v: "map_of r par = Some v" by auto
  from Cons have "id_parts names r = Inr (rendered_parts names r)" by simp
  then show ?case using v
    by (simp add: p dict_getitem_def dict_get_def rendered_parts_def)
qed

lemma id_parts_cong:
  "(\<forall>k \<in> fst ` set names. map_of r1 k = map_of r2 k) \<Longrightarrow> id_parts names r1 = id_parts names r2"
proof (induction names)
  case Nil
  show ?case by simp
next
  case (Cons p names)
  obtain par short where p: "p = (par, short)" by (cases p)
  from Cons.prems p have "dict_getitem r1 par = dict_getitem r2 par"
    by (simp add: dict_getitem_def)
  moreover from Cons have "id_parts names r1 = id_parts names r2" by simp
  ultimately show ?case by (simp add: p cong: sum.case_cong)
qed

lemma split_at_separator:
  "c \<notin> set xs \<Longrightarrow> c \<notin> set xs' \<Longrightarrow> xs @ c # ys = xs' @ c # ys' \<Longrightarrow> xs = xs' \<and> ys = ys'"
proof (induction xs arbitrary: xs')
  case Nil
  then show ?case by (cases xs') auto
next
  case (Cons x xs)
  then show ?case by (cases xs') auto
qed

lemma join_Cons: "ps \<noteq> [] \<Longrightarrow> join sep (x # ps) = x @ sep @ join sep ps"
  by (cases ps) simp_all

lemma rendered_parts_Cons:
  "rendered_parts ((par, short) # names) r =
     (short @ ''-'' @ py_str (dict_get r par)) # rendered_parts names r"
  by (simp add: rendered_parts_def)

lemma rendered_parts_Nil_iff: "rendered_parts names r = [] \<longleftrightarrow> names = []"
  by (simp add: rendered_parts_def)

lemma join_rendered_parts_inj:
  assumes "\<forall>k \<in> fst ` set names.
             CHR '','' \<notin> set (py_str (dict_get r1 k)) \<and> CHR '','' \<notin> set (py_str (dict_get r2 k))"
      and "join '','' (rendered_parts names r1) = join '','' (rendered_parts names r2)"
  shows "\<forall>k \<in> fst ` set names. py_str (dict_get r1 k) = py_str (dict_get r2 k)"
  using assms
proof (induction names)
  case Nil
  show ?case by simp
next
  case (Cons p names)
  obtain par short where p: "p = (par, short)" by (cases p)
  let ?s = "py_str (dict_get r1 par)" and ?t = "py_str (dict_get r2 par)"
  let ?J1 = "join '','' (rendered_parts names r1)" and ?J2 = "join '','' (rendered_parts names r2)"
  from Cons.prems(1) p have free: "CHR '','' \<notin> set ?s" "CHR '','' \<notin> set ?t" by auto
  from Cons.prems(1) have rest: "\<forall>k \<in> fst ` set names.
        CHR '','' \<notin> set (py_str (dict_get r1 k)) \<and> CHR '','' \<notin> set (py_str (dict_get r2 k))"
    by simp
  have eq: "join '','' ((short @ ''-'' @ ?s) # rendered_parts names r1)
      = join '','' ((short @ ''-'' @ ?t) # rendered_parts names r2)"
    using Cons.prems(2) unfolding p rendered_parts_Cons .
  have "?s = ?t \<and> (\<forall>k \<in> fst ` set names. py_str (dict_get r1 k) = py_str (dict_get r2 k))"
  proof (cases "names = []")
    case True
    with eq have "short @ ''-'' @ ?s = short @ ''-'' @ ?t"
      by (simp add: rendered_parts_def)
    then have "?s = ?t" by (simp only: same_append_eq)
    with True show ?thesis by simp
  next
    case False
    then have ne: "rendered_parts names r1 \<noteq> []" "rendered_parts names r2 \<noteq> []"
      by (simp_all only: rendered_parts_Nil_iff not_False_eq_True)
    from eq have "(short @ ''-'' @ ?s) @ '','' @ ?J1 = (short @ ''-'' @ ?t) @ '','' @ ?J2"
      by (simp only: join_Cons[OF ne(1)] join_Cons[OF ne(2)])
    then have "short @ ''-'' @ (?s @ CHR '','' # ?J1) = short @ ''-'' @ (?t @ CHR '','' # ?J2)"
      by (simp only: append_assoc append.simps)
    then have "?s @ CHR '','' # ?J1 = ?t @ CHR '','' # ?J2"
      by (simp only: same_append_eq)
    from split_at_separator[OF free this] have "?s = ?t" and "?J1 = ?J2" by simp_all
    with Cons.IH[OF rest] show ?thesis by simp
  qed
  then show ?case by (simp add: p)
qed

text \<open>
  C5, as the code has it. Test parameters that agree on every key of the id-naming dict
  have the same id (or raise the same \<open>KeyError\<close>), whatever they hold for other keys.
  When they hold every key of the id-naming dict, the id is the parts
  \<open>shortname-str(value)\<close> in the order of the id-naming dict, joined by commas. Two
  test parameters have different ids when \<open>str\<close> of their values differs for some key
  of the id-naming dict and no \<open>str\<close> of a value holds a comma; without that, test
  parameters that differ in a value can have the same id.
\<close>

theorem generate_test_id_identity:
  "((\<forall>k \<in> fst ` set (short_test_parameters_names_for_generating_id self).
        map_of r1 k = map_of r2 k) \<longrightarrow>
      generate_test_id self r1 = generate_test_id self r2) \<and>
   (fst ` set (short_test_parameters_names_for_generating_id self) \<subseteq> fst ` set r1 \<longrightarrow>
      generate_test_id self r1 =
        Inr (join '',''
          (map (\<lambda>(par_name, short_par_name).
                  short_par_name @ ''-'' @ py_str (dict_get r1 par_name))
             (short_test_parameters_names_for_generating_id self)))) \<and>
   (fst ` set (short_test_parameters_names_for_generating_id self) \<subseteq> fst ` set r1 \<inter> fst ` set r2 \<and>
    (\<forall>k \<in> fst ` set (short_test_parameters_names_for_generating_id self).
        CHR '','' \<notin> set (py_str (dict_get r1 k)) \<and> CHR '','' \<notin> set (py_str (dict_get r2 k))) \<and>
    (\<exists>k \<in> fst ` set (short_test_parameters_names_for_generating_id self).
        py_str (dict_get r1 k) \<noteq> py_str (dict_get r2 k)) \<longrightarrow>
      generate_test_id self r1 \<noteq> generate_test_id self r2)"
proof (intro conjI impI)
  let ?names = "short_test_parameters_names_for_generating_id self"
  show "generate_test_id self r1 = generate_test_id self r2"
    if "\<forall>k \<in> fst ` set ?names. map_of r1 k = map_of r2 k"
    using id_parts_cong[OF that] by (simp add: generate_test_id_def)
  show "generate_test_id self r1 =
        Inr (join '','' (map (\<lambda>(par_name, short_par_name).
                  short_par_name @ ''-'' @ py_str (dict_get r1 par_name)) ?names))"
    if "fst ` set ?names \<subseteq> fst ` set r1"
    using id_parts_present[OF that] by (simp add: generate_test_id_def rendered_parts_def)
  show "generate_test_id self r1 \<noteq> generate_test_id self r2"
    if h: "fst ` set ?names \<subseteq> fst ` set r1 \<inter> fst ` set r2 \<and>
      (\<forall>k \<in> fst ` set ?names.
        CHR '','' \<notin> set (py_str (dict_get r1 k)) \<and> CHR '','' \<notin> set (py_str (dict_get r2 k))) \<and>
      (\<exists>k \<in> fst ` set ?names. py_str (dict_get r1 k) \<noteq> py_str (dict_get r2 k))"
  proof
    assume eq: "generate_test_id self r1 = generate_test_id self r2"
    from h have p1: "id_parts ?names r1 = Inr (rendered_parts ?names r1)"
      and p2: "id_parts ?names r2 = Inr (rendered_parts ?names r2)"
      by (simp_all add: id_parts_present)
    from eq have "join '','' (rendered_parts ?names r1) = join '','' (rendered_parts ?names r2)"
      by (simp add: generate_test_id_def p1 p2)
    with join_rendered_parts_inj[of ?names r1 r2] h show False by blast
  qed
qed

lemmas id_ev = generate_test_id_def default_names_def example_helper_def example_test_parameters_def
  dict_getitem_def dict_get_def py_str_def str_of_int_def str_of_nat.simps digit_def update_conv'

text \<open>
  The claim as the specification words it fails where \<open>str\<close> does not tell two
  values apart: the batch sizes \<open>2\<close> and \<open>'2'\<close> are different values of a key
  of the id-naming dict, and the ids are the same.
\<close>

theorem generate_test_id_collision_counterexample:
  "(''batch_size'', ''batch'') \<in> set (short_test_parameters_names_for_generating_id default_names) \<and>
   dict_get example_test_parameters ''batch_size'' = PInt 2 \<and>
   dict_get (AList.update ''batch_size'' (PStr ''2'') example_test_parameters) ''batch_size''
     = PStr ''2'' \<and>
   PInt 2 \<noteq> PStr ''2'' \<and>
   generate_test_id default_names example_test_parameters
     = Inr ''ACTION-train,model-A,dataset-X,num_iters-1,batch-2,usecase-precommit'' \<and>
   generate_test_id default_names
       (AList.update ''batch_size'' (PStr ''2'') example_test_parameters)
     = Inr ''ACTION-train,model-A,dataset-X,num_iters-1,batch-2,usecase-precommit''"
  by (simp add: id_ev)

theorem generate_test_id_identity_witness:
  "generate_test_id default_names example_test_parameters =
   generate_test_id default_names (AList.update ''epochs'' (PInt 5) example_test_parameters) \<and>
   generate_test_id default_names example_test_parameters
     = Inr ''ACTION-train,model-A,dataset-X,num_iters-1,batch-2,usecase-precommit'' \<and>
   dict_get (AList.update ''batch_size'' (PInt 4) example_test_parameters) ''batch_size''
     \<noteq> dict_get example_test_parameters ''batch_size'' \<and>
   generate_test_id default_names example_test_parameters \<noteq>
   generate_test_id default_names (AList.update ''batch_size'' (PInt 4) example_test_parameters)"
proof -
  let ?h = default_names
  let ?r = example_test_parameters
  let ?r' = "AList.update ''epochs'' (PInt 5) example_test_parameters"
  let ?r4 = "AList.update ''batch_size'' (PInt 4) example_test_parameters"
  have names: "fst ` set (short_test_parameters_names_for_generating_id ?h) =
     {''test_stage'', ''model_name'', ''dataset_name'', ''num_training_iters'', ''batch_size'',
      ''usecase''}"
    by (simp add: default_names_def)
  have a: "\<forall>k \<in> fst ` set (short_test_parameters_names_for_generating_id ?h).
      map_of ?r k = map_of ?r' k"
    unfolding names by (simp add: update_conv')
  have b: "fst ` set (short_test_parameters_names_for_generating_id ?h) \<subseteq> fst ` set ?r"
    unfolding names by (simp add: example_test_parameters_def)
  have b4: "fst ` set (short_test_parameters_names_for_generating_id ?h)
      \<subseteq> fst ` set ?r \<inter> fst ` set ?r4"
    unfolding names by (simp add: example_test_parameters_def)
  have c: "\<forall>k \<in> fst ` set (short_test_parameters_names_for_generating_id ?h).
      CHR '','' \<notin> set (py_str (dict_get ?r k)) \<and> CHR '','' \<notin> set (py_str (dict_get ?r4 k))"
    unfolding names by (simp add: id_ev)
  have d: "\<exists>k \<in> fst ` set (short_test_parameters_names_for_generating_id ?h).
      py_str (dict_get ?r k) \<noteq> py_str (dict_get ?r4 k)"
    unfolding names by (simp add: id_ev)
  note th = generate_test_id_identity[of ?h ?r]
  from th[of ?r'] a have 1: "generate_test_id ?h ?r = generate_test_id ?h ?r'" by blast
  from th[of ?r] b have "generate_test_id ?h ?r =
        Inr (join '',''
          (map (\<lambda>(par_name, short_par_name).
                  short_par_name @ ''-'' @ py_str (dict_get ?r par_name))
             (short_test_parameters_names_for_generating_id ?h)))" by blast
  then have 2: "generate_test_id ?h ?r
     = Inr ''ACTION-train,model-A,dataset-X,num_iters-1,batch-2,usecase-precommit''"
    by (simp add: id_ev)
  from th[of ?r4] b4 c d have 3: "generate_test_id ?h ?r \<noteq> generate_test_id ?h ?r4" by blast
  have 4: "dict_get ?r4 ''batch_size'' \<noteq> dict_get ?r ''batch_size''"
    by (simp add: id_ev)
  from 1 2 3 4 show ?thesis by (intro conjI)
qed

section \<open>Facts about get_list_of_tests on the store\<close>

lemma fill_defaults_loop_st_eq:
  "a < length s \<Longrightarrow>
   fill_defaults_loop_st unset ds a s = s[a := fill_defaults_loop unset ds (s ! a)]"
proof (induction ds arbitrary: s)
  case Nil
  show ?case by simp
next
  case (Cons p ds)
  obtain key dv where p: "p = (key, dv)" by (cases p)
  show ?case
    using Cons.prems Cons.IH[of s] Cons.IH[of "setitem a key dv s"]
    by (simp add: p Let_def setitem_def)
qed

lemma new_test_parameters:
  assumes "el < length s"
  shows "fill_test_parameters_default_values_st unset self (length s)
           (setitem (length s) ''dataset_name'' d
             (setitem (length s) ''model_name'' m
               (setitem (length s) ''test_stage'' (PStr st) (s @ [s ! el]))))
         = s @ [test_parameters_of unset self (s ! el) m d st]"
  by (simp add: fill_test_parameters_default_values_st_def fill_defaults_loop_st_eq setitem_def
        test_parameters_of_def fill_test_parameters_default_values_def nth_append)

lemma agrees_refl: "\<forall>a \<in> set (fst acc). a < length s \<Longrightarrow>
  agrees (Inr acc, s) s (Inr (map (\<lambda>a. s ! a) (fst acc), snd acc))"
  by (cases acc) (simp add: agrees_def)

lemma agrees_append:
  "agrees r (s @ new) v \<Longrightarrow> agrees r s v"
  by (auto simp: agrees_def)

lemma stage_loop_st_agrees:
  assumes "el < length s" and "\<forall>a \<in> set (fst acc). a < length s"
  shows "agrees (stage_loop_st unset self el m d sts acc s) s
           (stage_loop unset self (s ! el) m d sts (map (\<lambda>a. s ! a) (fst acc), snd acc))"
  using assms
proof (induction sts arbitrary: acc s)
  case Nil
  then show ?case using agrees_refl[of acc s] by simp
next
  case (Cons st sts)
  let ?tp = "test_parameters_of unset self (s ! el) m d st"
  let ?s5 = "s @ [?tp]"
  show ?case
  proof (cases "generate_test_id self ?tp")
    case (Inl e)
    then show ?thesis
      using Cons.prems(1)
      by (simp add: Let_def new_test_parameters agrees_def)
  next
    case (Inr i)
    let ?acc = "(fst acc @ [length s], snd acc @ [i])"
    have el5: "el < length ?s5" using Cons.prems(1) by simp
    have acc5: "\<forall>a \<in> set (fst ?acc). a < length ?s5" using Cons.prems(2) by auto
    have vals: "map (\<lambda>a. ?s5 ! a) (fst ?acc) = map (\<lambda>a. s ! a) (fst acc) @ [?tp]"
      using Cons.prems(2) by (simp add: nth_append)
    have el_eq: "?s5 ! el = s ! el" using Cons.prems(1) by (simp add: nth_append)
    from Cons.IH[OF el5 acc5]
    have "agrees (stage_loop_st unset self el m d sts ?acc ?s5) ?s5
            (stage_loop unset self (s ! el) m d sts (map (\<lambda>a. s ! a) (fst acc) @ [?tp], snd acc @ [i]))"
      unfolding vals el_eq by simp
    then have "agrees (stage_loop_st unset self el m d sts ?acc ?s5) s
            (stage_loop unset self (s ! el) m d sts (map (\<lambda>a. s ! a) (fst acc) @ [?tp], snd acc @ [i]))"
      by (rule agrees_append)
    then show ?thesis
      using Cons.prems(1) Inr
      by (simp add: Let_def new_test_parameters)
  qed
qed


lemma agrees_store: "agrees r s v \<Longrightarrow> \<exists>new. snd r = s @ new"
  by (simp add: agrees_def)

lemma agrees_Inl: "agrees r s (Inl e) \<Longrightarrow> fst r = Inl e"
  by (simp add: agrees_def)

lemma agrees_Inr:
  "agrees r s (Inr (vals, ids)) \<Longrightarrow>
   \<exists>refs. fst r = Inr (refs, ids) \<and> map (\<lambda>a. snd r ! a) refs = vals \<and>
          (\<forall>a \<in> set refs. a < length (snd r))"
  by (simp add: agrees_def)

lemma pair_loop_st_agrees:
  assumes "el < length s" and "\<forall>a \<in> set (fst acc). a < length s"
  shows "agrees (pair_loop_st unset self el pairs acc s) s
           (pair_loop unset self (s ! el) pairs (map (\<lambda>a. s ! a) (fst acc), snd acc))"
  using assms
proof (induction pairs arbitrary: acc s)
  case Nil
  then show ?case using agrees_refl[of acc s] by simp
next
  case (Cons p pairs)
  obtain m d where p: "p = (m, d)" by (cases p)
  let ?stages = "get_list_of_test_stages (test_case_class self)"
  let ?r = "stage_loop_st unset self el m d ?stages acc s"
  let ?v = "stage_loop unset self (s ! el) m d ?stages (map (\<lambda>a. s ! a) (fst acc), snd acc)"
  have ag: "agrees ?r s ?v" by (rule stage_loop_st_agrees[OF Cons.prems])
  then obtain new where s1: "snd ?r = s @ new" using agrees_store by blast
  show ?case
  proof (cases ?v)
    case (Inl e)
    with ag have "fst ?r = Inl e" by (simp add: agrees_Inl)
    then have "?r = (Inl e, s @ new)" using s1 by (simp add: prod_eq_iff)
    then show ?thesis using Inl by (simp add: p agrees_def)
  next
    case (Inr vi)
    obtain vals ids where vi: "vi = (vals, ids)" by (cases vi)
    from ag Inr vi have "agrees ?r s (Inr (vals, ids))" by simp
    from agrees_Inr[OF this] obtain refs where refs: "fst ?r = Inr (refs, ids)"
      "map (\<lambda>a. snd ?r ! a) refs = vals" "\<forall>a \<in> set refs. a < length (snd ?r)"
      by auto
    let ?s1 = "s @ new"
    have r: "?r = (Inr (refs, ids), ?s1)" using refs(1) s1 by (simp add: prod_eq_iff)
    have el1: "el < length ?s1" using Cons.prems(1) by simp
    have acc1: "\<forall>a \<in> set (fst (refs, ids)). a < length ?s1" using refs(3) s1 by simp
    have el_eq: "?s1 ! el = s ! el" using Cons.prems(1) by (simp add: nth_append)
    have vals1: "map (\<lambda>a. ?s1 ! a) (fst (refs, ids)) = vals" using refs(2) s1 by simp
    from Cons.IH[OF el1 acc1]
    have "agrees (pair_loop_st unset self el pairs (refs, ids) ?s1) ?s1
            (pair_loop unset self (s ! el) pairs (vals, ids))"
      unfolding el_eq vals1 by simp
    then have "agrees (pair_loop_st unset self el pairs (refs, ids) ?s1) s
            (pair_loop unset self (s ! el) pairs (vals, ids))"
      by (rule agrees_append)
    then show ?thesis using Inr vi r by (simp add: p)
  qed
qed

lemma bunch_loop_st_agrees:
  assumes "\<forall>el \<in> set bunches. el < length s" and "\<forall>a \<in> set (fst acc). a < length s"
  shows "agrees (bunch_loop_st unset self usecase bunches acc s) s
           (bunch_loop unset self usecase (map (\<lambda>el. Dict (s ! el)) bunches)
              (map (\<lambda>a. s ! a) (fst acc), snd acc))"
  using assms
proof (induction bunches arbitrary: acc s)
  case Nil
  then show ?case using agrees_refl[of acc s] by simp
next
  case (Cons el bunches)
  from Cons.prems(1) have el: "el < length s" and rest: "\<forall>el \<in> set bunches. el < length s"
    by simp_all
  show ?case
  proof (cases "usecase \<noteq> PNone \<and> dict_get (s ! el) ''usecase'' \<noteq> usecase")
    case True
    then show ?thesis using Cons.IH[OF rest Cons.prems(2)] by (simp add: Let_def)
  next
    case False
    let ?pairs = "model_dataset_pairs (s ! el)"
    let ?r = "pair_loop_st unset self el ?pairs acc s"
    let ?v = "pair_loop unset self (s ! el) ?pairs (map (\<lambda>a. s ! a) (fst acc), snd acc)"
    have ag: "agrees ?r s ?v" by (rule pair_loop_st_agrees[OF el Cons.prems(2)])
    then obtain new where s1: "snd ?r = s @ new" using agrees_store by blast
    have st: "bunch_loop_st unset self usecase (el # bunches) acc s =
        (case ?r of
           (Inl e, s') \<Rightarrow> (Inl e, s')
         | (Inr acc', s') \<Rightarrow> bunch_loop_st unset self usecase bunches acc' s')"
      by (simp only: bunch_loop_st.simps Let_def False if_False)
    have pv: "bunch_loop unset self usecase (map (\<lambda>el. Dict (s ! el)) (el # bunches))
          (map (\<lambda>a. s ! a) (fst acc), snd acc) =
        (case ?v of
           Inl e \<Rightarrow> Inl e
         | Inr acc' \<Rightarrow>
             bunch_loop unset self usecase (map (\<lambda>el. Dict (s ! el)) bunches) acc')"
      by (simp only: list.map bunch_loop.simps Let_def False if_False)
    show ?thesis
    proof (cases ?v)
      case (Inl e)
      with ag have "fst ?r = Inl e" by (simp add: agrees_Inl)
      then have "?r = (Inl e, s @ new)" using s1 by (simp add: prod_eq_iff)
      then show ?thesis unfolding st pv using Inl by (simp add: agrees_def)
    next
      case (Inr vi)
      obtain vals ids where vi: "vi = (vals, ids)" by (cases vi)
      from ag Inr vi have "agrees ?r s (Inr (vals, ids))" by simp
      from agrees_Inr[OF this] obtain refs where refs: "fst ?r = Inr (refs, ids)"
        "map (\<lambda>a. snd ?r ! a) refs = vals" "\<forall>a \<in> set refs. a < length (snd ?r)"
        by auto
      let ?s1 = "s @ new"
      have r: "?r = (Inr (refs, ids), ?s1)" using refs(1) s1 by (simp add: prod_eq_iff)
      have rest1: "\<forall>el \<in> set bunches. el < length ?s1" using rest by auto
      have acc1: "\<forall>a \<in> set (fst (refs, ids)). a < length ?s1" using refs(3) s1 by simp
      have vals1: "map (\<lambda>a. ?s1 ! a) (fst (refs, ids)) = vals" using refs(2) s1 by simp
      have same: "map (\<lambda>el. Dict (?s1 ! el)) bunches = map (\<lambda>el. Dict (s ! el)) bunches"
        using rest by (simp add: nth_append)
      from Cons.IH[OF rest1 acc1]
      have "agrees (bunch_loop_st unset self usecase bunches (refs, ids) ?s1) ?s1
              (bunch_loop unset self usecase (map (\<lambda>el. Dict (s ! el)) bunches) (vals, ids))"
        unfolding same vals1 by simp
      then have "agrees (bunch_loop_st unset self usecase bunches (refs, ids) ?s1) s
              (bunch_loop unset self usecase (map (\<lambda>el. Dict (s ! el)) bunches) (vals, ids))"
        by (rule agrees_append)
      then show ?thesis unfolding st pv using Inr vi r by simp
    qed
  qed
qed

lemma get_list_of_tests_st_values:
  assumes "\<forall>el \<in> set bunches. el < length s"
      and "test_bunches self = map (\<lambda>el. Dict (s ! el)) bunches"
  shows "(\<exists>new. snd (get_list_of_tests_st unset self bunches usecase s) = s @ new) \<and>
         values_of (get_list_of_tests_st unset self bunches usecase s)
           = fst (get_list_of_tests unset self usecase)"
proof -
  let ?r = "bunch_loop_st unset self usecase bunches ([], []) s"
  let ?v = "bunch_loop unset self usecase (map (\<lambda>el. Dict (s ! el)) bunches) ([], [])"
  have ag: "agrees ?r s ?v"
    using bunch_loop_st_agrees[OF assms(1), of "([], [])" unset self usecase] by simp
  then obtain new where s1: "snd ?r = s @ new" using agrees_store by blast
  have dicts: "list_all is_dict (test_bunches self)"
    unfolding assms(2) by (induction bunches) simp_all
  show ?thesis
  proof (cases ?v)
    case (Inl e)
    with ag have "fst ?r = Inl e" by (simp add: agrees_Inl)
    then have "?r = (Inl e, s @ new)" using s1 by (simp add: prod_eq_iff)
    then show ?thesis using Inl dicts
      by (simp add: get_list_of_tests_st_def get_list_of_tests_def values_of_def assms(2))
  next
    case (Inr vi)
    obtain vals ids where vi: "vi = (vals, ids)" by (cases vi)
    from ag Inr vi have "agrees ?r s (Inr (vals, ids))" by simp
    from agrees_Inr[OF this] obtain refs where refs: "fst ?r = Inr (refs, ids)"
      "map (\<lambda>a. snd ?r ! a) refs = vals" by auto
    have r: "?r = (Inr (refs, ids), s @ new)" using refs(1) s1 by (simp add: prod_eq_iff)
    from refs(2) s1 have "map (\<lambda>a. (s @ new) ! a) refs = vals" by simp
    then show ?thesis using Inr vi r dicts
      by (simp add: get_list_of_tests_st_def get_list_of_tests_def values_of_def assms(2))
  qed
qed

text \<open>
  C8. A call of \<open>get_list_of_tests\<close> on a helper whose test bunches are dict objects
  of a store leaves every object that was in the store as it is, the test bunches among
  them (it writes into its deep copies only), and its result, read from the store, is the
  result of the function on values. A second call with the same \<open>usecase\<close>, on the
  store the first call leaves, returns the same \<open>argnames\<close>, the same test parameters
  in the same order and the same \<open>ids\<close>, or raises the same exception. The fields of
  the helper (the id-naming dict, the defaults, the cache with its key and its value, the
  count of constructor calls) are as before, no statement of the function assigning any.
\<close>

theorem get_list_of_tests_pure:
  assumes "\<forall>el \<in> set bunches. el < length s"
      and "test_bunches self = map (\<lambda>el. Dict (s ! el)) bunches"
  shows "take (length s) (snd (get_list_of_tests_st unset self bunches usecase s)) = s \<and>
         map (\<lambda>el. Dict (snd (get_list_of_tests_st unset self bunches usecase s) ! el)) bunches
           = test_bunches self \<and>
         values_of (get_list_of_tests_st unset self bunches usecase s)
           = fst (get_list_of_tests unset self usecase) \<and>
         values_of (get_list_of_tests_st unset self bunches usecase
                      (snd (get_list_of_tests_st unset self bunches usecase s)))
           = values_of (get_list_of_tests_st unset self bunches usecase s) \<and>
         snd (get_list_of_tests unset self usecase) = self \<and>
         get_list_of_tests unset (snd (get_list_of_tests unset self usecase)) usecase
           = get_list_of_tests unset self usecase"
proof -
  let ?r = "get_list_of_tests_st unset self bunches usecase s"
  from get_list_of_tests_st_values[OF assms, of unset usecase]
  obtain new where s1: "snd ?r = s @ new"
    and v1: "values_of ?r = fst (get_list_of_tests unset self usecase)" by blast
  have frame: "take (length s) (snd ?r) = s" by (simp add: s1)
  have same: "map (\<lambda>el. Dict (snd ?r ! el)) bunches = map (\<lambda>el. Dict (s ! el)) bunches"
    using assms(1) by (simp add: s1 nth_append)
  have valid: "\<forall>el \<in> set bunches. el < length (snd ?r)"
    using assms(1) by (auto simp: s1)
  have bunches: "test_bunches self = map (\<lambda>el. Dict (snd ?r ! el)) bunches"
    using same assms(2) by simp
  from get_list_of_tests_st_values[OF valid bunches, of unset usecase]
  have v2: "values_of (get_list_of_tests_st unset self bunches usecase (snd ?r))
      = fst (get_list_of_tests unset self usecase)" by blast
  have p: "snd (get_list_of_tests unset self usecase) = self"
    by (simp add: get_list_of_tests_def split: sum.splits prod.splits)
  show ?thesis
    using frame same assms(2) v1 v2 p by simp
qed

lemma ev_example_store:
  "get_list_of_tests_st (PStr ''unset'') example_helper [0] PNone example_store =
     (Inr ([''test_parameters''], [1, 2, 3, 4],
        [''ACTION-train,model-A,dataset-X,usecase-precommit'',
         ''ACTION-eval,model-A,dataset-X,usecase-precommit'',
         ''ACTION-train,model-B,dataset-X,usecase-precommit'',
         ''ACTION-eval,model-B,dataset-X,usecase-precommit'']),
      example_store @
       [[(''model_name'', PStr ''A''), (''dataset_name'', PStr ''X''),
         (''usecase'', PStr ''precommit''), (''test_stage'', PStr ''train''),
         (''batch_size'', PInt 2)],
        [(''model_name'', PStr ''A''), (''dataset_name'', PStr ''X''),
         (''usecase'', PStr ''precommit''), (''test_stage'', PStr ''eval''),
         (''batch_size'', PInt 2)],
        [(''model_name'', PStr ''B''), (''dataset_name'', PStr ''X''),
         (''usecase'', PStr ''precommit''), (''test_stage'', PStr ''train''),
         (''batch_size'', PInt 2)],
        [(''model_name'', PStr ''B''), (''dataset_name'', PStr ''X''),
         (''usecase'', PStr ''precommit''), (''test_stage'', PStr ''eval''),
         (''batch_size'', PInt 2)]])"
  by code_simp

theorem get_list_of_tests_pure_witness:
  "test_bunches example_helper = map (\<lambda>el. Dict (example_store ! el)) [0] \<and>
   (0::nat) < length example_store \<and>
   fst (get_list_of_tests_st (PStr ''unset'') example_helper [0] PNone example_store)
     = Inr ([''test_parameters''], [1, 2, 3, 4],
        [''ACTION-train,model-A,dataset-X,usecase-precommit'',
         ''ACTION-eval,model-A,dataset-X,usecase-precommit'',
         ''ACTION-train,model-B,dataset-X,usecase-precommit'',
         ''ACTION-eval,model-B,dataset-X,usecase-precommit'']) \<and>
   length (snd (get_list_of_tests_st (PStr ''unset'') example_helper [0] PNone example_store)) = 5 \<and>
   take (length example_store)
     (snd (get_list_of_tests_st (PStr ''unset'') example_helper [0] PNone example_store))
     = example_store \<and>
   values_of (get_list_of_tests_st (PStr ''unset'') example_helper [0] PNone example_store)
     = fst (get_list_of_tests (PStr ''unset'') example_helper PNone) \<and>
   values_of (get_list_of_tests_st (PStr ''unset'') example_helper [0] PNone
      (snd (get_list_of_tests_st (PStr ''unset'') example_helper [0] PNone example_store)))
     = values_of (get_list_of_tests_st (PStr ''unset'') example_helper [0] PNone example_store) \<and>
   snd (get_list_of_tests (PStr ''unset'') example_helper PNone) = example_helper"
proof -
  have a: "\<forall>el \<in> set [0::nat]. el < length example_store"
    by (simp add: example_store_def)
  have b: "test_bunches example_helper = map (\<lambda>el. Dict (example_store ! el)) [0]"
    by (simp add: example_helper_def example_parameters_def example_store_def)
  have c: "(0::nat) < length example_store" by (simp add: example_store_def)
  have d: "length (snd (get_list_of_tests_st (PStr ''unset'') example_helper [0] PNone
      example_store)) = 5"
    by (simp add: ev_example_store) (simp add: example_store_def)
  from get_list_of_tests_pure[OF a b, of "PStr ''unset''" PNone] b c d ev_example_store
  show ?thesis by simp
qed

end
